theory Spec2Isabelle
  imports Complex_Main
begin

section \<open>Exceptions\<close>

text \<open>
  The Python exceptions the modelled code can raise. A call that raises is the left
  injection of a sum; what had been done before the raise stays in the trace of actions.
\<close>

datatype py_error =
    StopIteration
  | AttributeError
  | TypeError
  | ValueError
  | ZeroDivisionError
  | IOError
  | EOFError
  | AssertionError

section \<open>Timestamps\<close>

text \<open>
  Modelled from the spec: \<open>SyncTime\<close> (imported from \<open>sts.syncproto.base\<close>) is not among
  the sources. The code builds it as \<open>SyncTime(seconds, microSeconds)\<close> and reads the two
  fields; two timestamps compare by seconds first and microseconds second.
\<close>

datatype SyncTime = SyncTime (seconds: int) (microSeconds: int)

definition SyncTime_less :: "SyncTime \<Rightarrow> SyncTime \<Rightarrow> bool" where
  "SyncTime_less a b =
     (seconds a < seconds b \<or> (seconds a = seconds b \<and> microSeconds a < microSeconds b))"

definition SyncTime_le :: "SyncTime \<Rightarrow> SyncTime \<Rightarrow> bool" where
  "SyncTime_le a b = (SyncTime_less a b \<or> a = b)"

section \<open>ReplaySyncCallback: the multiset of pending state changes\<close>

text \<open>
  \<open>PendingStateChange(controller.uuid, time, fingerprint, name, value)\<close> is a tuple of
  values, hashed and compared by its fields.
\<close>

datatype PendingStateChange = PendingStateChange string SyncTime string string string

record controller =
  uuid :: string

text \<open>
  Python's \<open>Counter\<close> is a dict whose lookup of a missing key answers 0 without storing
  anything; \<open>c[k] += 1\<close> and \<open>c[k] -= 1\<close> read through that lookup and then store.
\<close>

type_synonym 'k Counter = "'k \<rightharpoonup> int"

definition Counter_getitem :: "'k Counter \<Rightarrow> 'k \<Rightarrow> int" where
  "Counter_getitem c k = (case c k of None \<Rightarrow> 0 | Some n \<Rightarrow> n)"

record ReplaySyncCallback =
  pending_state_changes :: "PendingStateChange Counter"

definition ReplaySyncCallback_init :: ReplaySyncCallback where
  "ReplaySyncCallback_init = \<lparr> pending_state_changes = Map.empty \<rparr>"

definition state_change_pending :: "ReplaySyncCallback \<Rightarrow> PendingStateChange \<Rightarrow> bool" where
  "state_change_pending cb p = (Counter_getitem (pending_state_changes cb) p > 0)"

definition gc_pending_state_change ::
  "ReplaySyncCallback \<Rightarrow> PendingStateChange \<Rightarrow> ReplaySyncCallback" where
  "gc_pending_state_change cb p =
     (let c = pending_state_changes cb;
          c1 = c(p \<mapsto> Counter_getitem c p - 1)
      in if Counter_getitem c1 p \<le> 0
         then cb\<lparr> pending_state_changes := c1(p := None) \<rparr>
         else cb\<lparr> pending_state_changes := c1 \<rparr>)"

definition state_change ::
  "ReplaySyncCallback \<Rightarrow> controller \<Rightarrow> SyncTime \<Rightarrow> string \<Rightarrow> string \<Rightarrow> string
     \<Rightarrow> ReplaySyncCallback" where
  "state_change cb ctl tm fp nm val =
     (let p = PendingStateChange (uuid ctl) tm fp nm val;
          c = pending_state_changes cb
      in cb\<lparr> pending_state_changes := c(p \<mapsto> Counter_getitem c p + 1) \<rparr>)"

text \<open>A caller of the callback object: any sequence of the two mutating calls.\<close>

datatype sync_call =
    StateChange controller SyncTime string string string
  | GcPendingStateChange PendingStateChange

fun apply_call :: "ReplaySyncCallback \<Rightarrow> sync_call \<Rightarrow> ReplaySyncCallback" where
  "apply_call cb (StateChange ctl tm fp nm val) =
     state_change cb ctl tm fp nm val"
| "apply_call cb (GcPendingStateChange p) = gc_pending_state_change cb p"

definition apply_calls :: "ReplaySyncCallback \<Rightarrow> sync_call list \<Rightarrow> ReplaySyncCallback" where
  "apply_calls cb cs = foldl apply_call cb cs"

fun produces :: "PendingStateChange \<Rightarrow> sync_call \<Rightarrow> bool" where
  "produces p (StateChange ctl tm fp nm val) =
     (p = PendingStateChange (uuid ctl) tm fp nm val)"
| "produces p (GcPendingStateChange q) = False"

fun collects :: "PendingStateChange \<Rightarrow> sync_call \<Rightarrow> bool" where
  "collects p (StateChange ctl tm fp nm val) = False"
| "collects p (GcPendingStateChange q) = (p = q)"

definition stored_positive :: "ReplaySyncCallback \<Rightarrow> bool" where
  "stored_positive cb = (\<forall>p n. pending_state_changes cb p = Some n \<longrightarrow> 0 < n)"

section \<open>Replayer and MCSFinder\<close>

record Event =
  eid :: nat
  time :: SyncTime

text \<open>
  Modelled from the spec: \<open>EventDag\<close> and its event watchers (\<open>sts.event\<close>) are not among
  the sources. The DAG is an ordered sequence of events; \<open>events()\<close> produces that
  sequence, \<open>event_watchers()\<close> a watcher bound to each event in order, and
  \<open>event_watchers(pruned_event)\<close> the same with exactly that one event excised.
\<close>

record EventDag =
  dag_events :: "Event list"

datatype EventWatcher = EventWatcher (event: Event)

definition events :: "EventDag \<Rightarrow> Event list" where
  "events d = dag_events d"

definition event_watchers :: "EventDag \<Rightarrow> Event option \<Rightarrow> EventWatcher list" where
  "event_watchers d pruned_event =
     (case pruned_event of
        None \<Rightarrow> map EventWatcher (dag_events d)
      | Some e \<Rightarrow> map EventWatcher (remove1 e (dag_events d)))"

text \<open>
  What the replay does to its collaborators, in order: the simulation is bootstrapped, a
  watcher is run, and while a watcher runs the controller may ask the sync callback for
  \<open>gettimeofday\<close>; the answer it got is recorded with the event being replayed.
\<close>

datatype replay_action =
    Bootstrap
  | Run Event
  | GetTimeOfDay Event SyncTime

record Replayer =
  dag :: EventDag
  interpolated_time :: SyncTime

definition time_epsilon_microseconds :: int where
  "time_epsilon_microseconds = 500"

definition get_interpolated_time :: "Replayer \<Rightarrow> SyncTime" where
  "get_interpolated_time r = interpolated_time r"

definition compute_interpolated_time :: "Replayer \<Rightarrow> Event \<Rightarrow> Replayer" where
  "compute_interpolated_time r current_event =
     (let next_time = time current_event;
          just_before_micro = microSeconds next_time - time_epsilon_microseconds;
          just_before_micro = max 0 just_before_micro
      in r\<lparr> interpolated_time := SyncTime (seconds next_time) just_before_micro \<rparr>)"

text \<open>\<open>ReplaySyncCallback.get_deterministic_value\<close>, bound to the replayer's clock.\<close>

definition get_deterministic_value :: "Replayer \<Rightarrow> string \<Rightarrow> py_error + SyncTime" where
  "get_deterministic_value r nm =
     (if nm = ''gettimeofday'' then Inr (get_interpolated_time r) else Inl ValueError)"

text \<open>
  \<open>Replayer.__init__\<close>: the clock is set just before the first event; \<open>next()\<close> on the
  events of an empty DAG raises \<open>StopIteration\<close>.
\<close>

definition Replayer_init :: "EventDag \<Rightarrow> py_error + Replayer" where
  "Replayer_init d =
     (case events d of
        [] \<Rightarrow> Inl StopIteration
      | e # _ \<Rightarrow>
          Inr (compute_interpolated_time \<lparr> dag = d, interpolated_time = SyncTime 0 0 \<rparr> e))"

definition increment_round :: "Replayer \<Rightarrow> Replayer" where
  "increment_round r = r"

text \<open>
  Modelled from the spec: \<open>EventWatcher.run\<close> is not among the sources. It performs the
  event's effect on the simulation; \<open>n\<close> is the number of clock reads the controller makes
  meanwhile, each answered by \<open>get_deterministic_value\<close>.
\<close>

definition EventWatcher_run :: "EventWatcher \<Rightarrow> Replayer \<Rightarrow> nat \<Rightarrow> replay_action list" where
  "EventWatcher_run w r n =
     Run (event w) #
     (case get_deterministic_value r ''gettimeofday'' of
        Inl _ \<Rightarrow> []
      | Inr t \<Rightarrow> replicate n (GetTimeOfDay (event w) t))"

fun replay_watchers ::
  "Replayer \<Rightarrow> (Event \<Rightarrow> nat) \<Rightarrow> EventWatcher list \<Rightarrow> replay_action list \<times> Replayer" where
  "replay_watchers r reads [] = ([], r)"
| "replay_watchers r reads (w # ws) =
     (let r1 = compute_interpolated_time r (event w);
          as = EventWatcher_run w r1 (reads (event w));
          r2 = increment_round r1;
          (bs, r3) = replay_watchers r2 reads ws
      in (as @ bs, r3))"

definition Replayer_simulate ::
  "Replayer \<Rightarrow> (Event \<Rightarrow> nat) \<Rightarrow> replay_action list \<times> Replayer" where
  "Replayer_simulate r reads =
     (let (as, r1) = replay_watchers r reads (event_watchers (dag r) None)
      in (Bootstrap # as, r1))"

text \<open>The inner loop of \<open>MCSFinder.simulate\<close>: the watchers run, the clock is left alone.\<close>

fun run_watchers ::
  "Replayer \<Rightarrow> (Event \<Rightarrow> nat) \<Rightarrow> EventWatcher list \<Rightarrow> replay_action list" where
  "run_watchers r reads [] = []"
| "run_watchers r reads (w # ws) =
     EventWatcher_run w r (reads (event w)) @ run_watchers (increment_round r) reads ws"

text \<open>
  The pruning loop; \<open>k\<close> numbers the runs, and \<open>reads k\<close> tells how often the controller
  reads the clock at each event of run \<open>k\<close> (run 0 is the control run).
\<close>

fun prune_runs ::
  "Replayer \<Rightarrow> (nat \<Rightarrow> Event \<Rightarrow> nat) \<Rightarrow> nat \<Rightarrow> Event list \<Rightarrow> replay_action list" where
  "prune_runs r reads k [] = []"
| "prune_runs r reads k (pruned_event # rest) =
     Bootstrap # run_watchers r (reads k) (event_watchers (dag r) (Some pruned_event))
       @ prune_runs r reads (Suc k) rest"

definition MCSFinder_simulate ::
  "Replayer \<Rightarrow> (nat \<Rightarrow> Event \<Rightarrow> nat) \<Rightarrow> replay_action list \<times> Replayer \<times> Event list" where
  "MCSFinder_simulate r reads =
     (let (as, r1) = Replayer_simulate r (reads 0);
          mcs = [];
          bs = prune_runs r1 reads 1 (events (dag r1))
      in (as @ bs, r1, mcs))"

text \<open>The clock answers handed out during a run, each with the event then being replayed.\<close>

fun time_answers :: "replay_action list \<Rightarrow> (Event \<times> SyncTime) list" where
  "time_answers [] = []"
| "time_answers (GetTimeOfDay e t # as) = (e, t) # time_answers as"
| "time_answers (_ # as) = time_answers as"

text \<open>
  The contract of section 4.4 of the specification, in its words: a run reproduces the
  violation exactly when it replays every event of the set \<open>S\<close> the violation depends on.
\<close>

definition reproduces :: "Event set \<Rightarrow> Event list \<Rightarrow> bool" where
  "reproduces S replayed = (S \<subseteq> set replayed)"

text \<open>A controller that reads the clock \<open>n\<close> times while each event is replayed.\<close>

definition reads_each :: "nat \<Rightarrow> Event \<Rightarrow> nat" where
  "reads_each n e = n"

text \<open>
  Scenario A of the specification: five events, of which the second and the fourth are
  the ones the violation depends on.
\<close>

definition scenario_event :: "nat \<Rightarrow> Event" where
  "scenario_event i = \<lparr> eid = i, time = SyncTime (int i) 0 \<rparr>"

definition scenario_A :: EventDag where
  "scenario_A = \<lparr> dag_events = map scenario_event [1, 2, 3, 4, 5] \<rparr>"

section \<open>DeferredOFConnection\<close>

type_synonym ofp_msg = string

text \<open>
  Modelled from the spec: \<open>OpenFlowBuffer\<close> (\<open>sts.openflow_buffer\<close>) is not among the
  sources. \<open>insert_pending_receipt(switch_id, controller_id, message, destination)\<close>
  records an inbound message as buffered and never delivers it;
  \<open>insert_pending_send\<close> is symmetric for outbound messages.
\<close>

record OpenFlowBuffer =
  pending_receipts :: "(int \<times> string \<times> ofp_msg) list"
  pending_sends :: "(int \<times> string \<times> ofp_msg) list"

definition buffer_insert_pending_receipt ::
  "OpenFlowBuffer \<Rightarrow> int \<Rightarrow> string \<Rightarrow> ofp_msg \<Rightarrow> OpenFlowBuffer" where
  "buffer_insert_pending_receipt b switch_id controller_id m =
     b\<lparr> pending_receipts := pending_receipts b @ [(switch_id, controller_id, m)] \<rparr>"

definition buffer_insert_pending_send ::
  "OpenFlowBuffer \<Rightarrow> int \<Rightarrow> string \<Rightarrow> ofp_msg \<Rightarrow> OpenFlowBuffer" where
  "buffer_insert_pending_send b switch_id controller_id m =
     b\<lparr> pending_sends := pending_sends b @ [(switch_id, controller_id, m)] \<rparr>"

text \<open>
  The attribute \<open>on_message_received\<close> is what the I/O layer of the base class calls when
  a message arrives: either the connection's own \<open>insert_pending_receipt\<close> or a handler
  of the switch (handlers are told apart by a number).
\<close>

datatype message_receiver = insert_pending_receipt_method | handler_function nat

record DeferredOFConnection =
  cid :: string
  dpid :: int
  openflow_buffer :: OpenFlowBuffer
  on_message_received :: message_receiver
  true_on_message_handler :: "nat option"

text \<open>
  What reaches the two ends of the connection: a call of a switch handler with a message,
  or a message written to the controller by the base class's \<open>send\<close>.
\<close>

datatype endpoint_action =
    HandlerCalled nat ofp_msg
  | SentToController ofp_msg

definition DeferredOFConnection_init ::
  "string \<Rightarrow> int \<Rightarrow> OpenFlowBuffer \<Rightarrow> DeferredOFConnection" where
  "DeferredOFConnection_init c d b =
     \<lparr> cid = c, dpid = d, openflow_buffer = b,
       on_message_received = insert_pending_receipt_method,
       true_on_message_handler = None \<rparr>"

definition get_controller_id :: "DeferredOFConnection \<Rightarrow> string" where
  "get_controller_id conn = cid conn"

definition insert_pending_receipt :: "DeferredOFConnection \<Rightarrow> ofp_msg \<Rightarrow> DeferredOFConnection" where
  "insert_pending_receipt conn m =
     conn\<lparr> openflow_buffer :=
       buffer_insert_pending_receipt (openflow_buffer conn) (dpid conn) (cid conn) m \<rparr>"

definition set_message_handler :: "DeferredOFConnection \<Rightarrow> nat \<Rightarrow> DeferredOFConnection" where
  "set_message_handler conn h = conn\<lparr> true_on_message_handler := Some h \<rparr>"

text \<open>Calling the stored handler while it is still \<open>None\<close> raises \<open>TypeError\<close>.\<close>

definition allow_message_receipt ::
  "DeferredOFConnection \<Rightarrow> ofp_msg \<Rightarrow> endpoint_action list \<times> (py_error + DeferredOFConnection)" where
  "allow_message_receipt conn m =
     (case true_on_message_handler conn of
        None \<Rightarrow> ([], Inl TypeError)
      | Some h \<Rightarrow> ([HandlerCalled h m], Inr conn))"

definition send :: "DeferredOFConnection \<Rightarrow> ofp_msg \<Rightarrow> DeferredOFConnection" where
  "send conn m =
     conn\<lparr> openflow_buffer :=
       buffer_insert_pending_send (openflow_buffer conn) (dpid conn) (cid conn) m \<rparr>"

definition allow_message_send ::
  "DeferredOFConnection \<Rightarrow> ofp_msg \<Rightarrow> endpoint_action list \<times> (py_error + DeferredOFConnection)" where
  "allow_message_send conn m = ([SentToController m], Inr conn)"

text \<open>The arrival of a message: the I/O layer calls whatever \<open>on_message_received\<close> holds.\<close>

definition message_arrives ::
  "DeferredOFConnection \<Rightarrow> ofp_msg \<Rightarrow> endpoint_action list \<times> (py_error + DeferredOFConnection)" where
  "message_arrives conn m =
     (case on_message_received conn of
        insert_pending_receipt_method \<Rightarrow> ([], Inr (insert_pending_receipt conn m))
      | handler_function h \<Rightarrow> ([HandlerCalled h m], Inr conn))"

datatype conn_call =
    MessageArrives ofp_msg
  | Send ofp_msg
  | SetMessageHandler nat
  | AllowMessageReceipt ofp_msg
  | AllowMessageSend ofp_msg

fun conn_step ::
  "DeferredOFConnection \<Rightarrow> conn_call \<Rightarrow> endpoint_action list \<times> (py_error + DeferredOFConnection)" where
  "conn_step conn (MessageArrives m) = message_arrives conn m"
| "conn_step conn (Send m) = ([], Inr (send conn m))"
| "conn_step conn (SetMessageHandler h) = ([], Inr (set_message_handler conn h))"
| "conn_step conn (AllowMessageReceipt m) = allow_message_receipt conn m"
| "conn_step conn (AllowMessageSend m) = allow_message_send conn m"

text \<open>A sequence of calls on one connection; an exception ends it.\<close>

fun conn_run ::
  "DeferredOFConnection \<Rightarrow> conn_call list \<Rightarrow> endpoint_action list \<times> (py_error + DeferredOFConnection)" where
  "conn_run conn [] = ([], Inr conn)"
| "conn_run conn (c # cs) =
     (case conn_step conn c of
        (as, Inl e) \<Rightarrow> (as, Inl e)
      | (as, Inr conn1) \<Rightarrow> (case conn_run conn1 cs of (bs, r) \<Rightarrow> (as @ bs, r)))"

text \<open>The endpoint actions that a call releases by name, if it is a release.\<close>

fun released_by :: "conn_call \<Rightarrow> endpoint_action \<Rightarrow> bool" where
  "released_by (AllowMessageReceipt m) (HandlerCalled h m') = (m = m')"
| "released_by (AllowMessageSend m) (SentToController m') = (m = m')"
| "released_by _ _ = False"

section \<open>The simulation as a control flow sees it\<close>

text \<open>
  The simulation, its topology, patch panel, scheduler and controller manager are
  collaborators outside the sources. A control flow reads their collections and calls
  their primitives; the model takes what the accessors answer during one round as a
  record, in the order Python iterates them, and writes every call of a primitive to a
  trace of actions.
\<close>

datatype dp_event = DpEvent (fingerprint: string)

datatype software_switch = SoftwareSwitch (switch_dpid: int)

datatype pending_receipt =
  PendingReceipt (receipt_fingerprint: string) (receipt_dpid: int) (controller_id: string)

datatype link =
  Link (start_dpid: int) (start_port_no: int) (end_dpid: int) (end_port_no: int)

datatype host = Host (host_name: string) (interfaces: "string list")

record simulation =
  patch_panel_is_buffered :: bool
  queued_dataplane_events :: "dp_event list"
  ok_to_send :: "dp_event \<Rightarrow> bool"
  unblocked_controller_connections :: "(software_switch \<times> DeferredOFConnection) list"
  blocked_controller_connections :: "(software_switch \<times> DeferredOFConnection) list"
  pending_receives :: "pending_receipt list"
  live_switches :: "software_switch list"
  failed_switches :: "software_switch list"
  live_links :: "link list"
  cut_links :: "link list"
  hosts :: "host list"
  live_controllers :: "controller list"
  down_controllers :: "controller list"
  dataplane_trace :: "(nat \<Rightarrow> dp_event) option"

text \<open>
  \<open>dataplane_trace\<close> is \<open>None\<close> when no recorded trace is attached; otherwise it gives
  the event that the \<open>k\<close>-th call of \<open>inject_trace_event()\<close> in the round injects.
\<close>

text \<open>The records handed to \<open>log_input_event\<close>: the \<open>klass\<close> tag and its fields.\<close>

datatype input_event =
    DataplaneDrop string
  | DataplanePermit string
  | ControlChannelBlock int string
  | ControlChannelUnBlock int string
  | ControlMessageReceive string int string
  | SwitchFailure int
  | SwitchRecovery int
  | LinkFailure int int int int
  | LinkRecovery int int int int
  | TrafficInjection dp_event
  | ControllerCrash string
  | ControllerRecovery string

text \<open>Every call a control flow makes on a collaborator, the console or the clock.\<close>

datatype action =
    BootstrapSimulation
  | DelayDpEvent dp_event
  | DropDpEvent dp_event
  | PermitDpEvent dp_event
  | Schedule pending_receipt
  | CrashSwitch software_switch
  | RecoverSwitch software_switch
  | SeverLink link
  | RepairLink link
  | Generate string host
  | Kill controller
  | Start controller
  | InjectTraceEvent
  | CheckInvariant string
  | EchoRequest software_switch
  | Console string
  | RawInput string
  | Sleep real
  | LogInputEvent input_event
  | Close

section \<open>Actions, exceptions and sequencing\<close>

text \<open>
  A piece of code yields the actions it performed and either the exception that ended it
  or its result.
\<close>

type_synonym 'a outcome = "action list \<times> (py_error + 'a)"

definition returns :: "'a \<Rightarrow> 'a outcome" where
  "returns x = ([], Inr x)"

definition raises :: "py_error \<Rightarrow> 'a outcome" where
  "raises e = ([], Inl e)"

definition perform :: "action list \<Rightarrow> 'a \<Rightarrow> 'a outcome" where
  "perform as x = (as, Inr x)"

definition and_then :: "'a outcome \<Rightarrow> ('a \<Rightarrow> 'b outcome) \<Rightarrow> 'b outcome" where
  "and_then m f =
     (case m of
        (as, Inl e) \<Rightarrow> (as, Inl e)
      | (as, Inr x) \<Rightarrow> (case f x of (bs, r) \<Rightarrow> (as @ bs, r)))"

text \<open>A \<open>for\<close> loop over a list, the state passed from one iteration to the next.\<close>

primrec for_each :: "('x \<Rightarrow> 's \<Rightarrow> 's outcome) \<Rightarrow> 'x list \<Rightarrow> 's \<Rightarrow> 's outcome" where
  "for_each body [] = (\<lambda>s. returns s)"
| "for_each body (x # xs) = (\<lambda>s. and_then (body x s) (for_each body xs))"

section \<open>Fuzzer\<close>

text \<open>
  The module named by \<open>fuzzer_params\<close>: the rates the checks compare a draw against.
\<close>

record fuzzer_params =
  dataplane_delay_rate :: real
  dataplane_drop_rate :: real
  controlplane_block_rate :: real
  controlplane_unblock_rate :: real
  ofp_message_receipt_rate :: real
  switch_failure_rate :: real
  switch_recovery_rate :: real
  link_failure_rate :: real
  link_recovery_rate :: real
  traffic_generation_rate :: real
  controller_crash_rate :: real
  controller_recovery_rate :: real

text \<open>
  \<open>random.Random(seed)\<close>: the sequence of floats the generator will produce and how
  many of them have been drawn. \<open>random()\<close> hands out the next one.
\<close>

record Random =
  draws :: "nat \<Rightarrow> real"
  drawn :: nat

definition random_random :: "Random \<Rightarrow> real \<times> Random" where
  "random_random g = (draws g (drawn g), g\<lparr> drawn := Suc (drawn g) \<rparr>)"

datatype InputLogger = InputLogger string

datatype InvariantChecker = InvariantChecker string

text \<open>
  What lies outside the sources and is taken as given: the sequence Python's generator
  produces from a seed; \<open>TrafficGenerator.generate\<close>, which builds a packet from the
  shared generator and tells how many draws it took; the state of the simulation that
  the accessors show in each round; and, for the rounds that check correspondence, how
  many times the main thread found the checking thread still alive and what the check
  answered.
\<close>

record environment =
  Random_of_seed :: "real \<Rightarrow> nat \<Rightarrow> real"
  traffic_generator_generate :: "Random \<Rightarrow> string \<Rightarrow> host \<Rightarrow> dp_event \<times> nat"
  simulation_in_round :: "int \<Rightarrow> simulation"
  correspondence_check :: "int \<Rightarrow> nat \<times> bool"

record Fuzzer =
  invariant_checker :: "InvariantChecker option"
  check_interval :: int
  trace_interval :: int
  seed :: real
  random :: Random
  delay :: real
  steps :: "int option"
  params :: fuzzer_params
  input_logger :: "InputLogger option"
  logical_time :: int

text \<open>
  \<open>Fuzzer.__init__\<close>. The parameter module is \<open>None\<close> when it cannot be imported, and
  the constructor then raises \<open>IOError\<close>.
\<close>

definition Fuzzer_init ::
  "environment \<Rightarrow> fuzzer_params option \<Rightarrow> int \<Rightarrow> int \<Rightarrow> real \<Rightarrow> real \<Rightarrow> int option
     \<Rightarrow> InputLogger option \<Rightarrow> py_error + Fuzzer" where
  "Fuzzer_init env fuzzer_params_module check_interval_arg trace_interval_arg random_seed
       delay_arg steps_arg input_logger_arg =
     (case fuzzer_params_module of
        None \<Rightarrow> Inl IOError
      | Some p \<Rightarrow>
          Inr \<lparr> invariant_checker = None,
                check_interval = check_interval_arg,
                trace_interval = trace_interval_arg,
                seed = random_seed,
                random = \<lparr> draws = Random_of_seed env random_seed, drawn = 0 \<rparr>,
                delay = delay_arg,
                steps = steps_arg,
                params = p,
                input_logger = input_logger_arg,
                logical_time = 0 \<rparr>)"

definition set_invariant_checker :: "Fuzzer \<Rightarrow> InvariantChecker \<Rightarrow> Fuzzer" where
  "set_invariant_checker fz ic = fz\<lparr> invariant_checker := Some ic \<rparr>"

definition log_input_event :: "Fuzzer \<Rightarrow> input_event \<Rightarrow> action list" where
  "log_input_event fz ev = (if input_logger fz \<noteq> None then [LogInputEvent ev] else [])"

definition self_random_random :: "Fuzzer \<Rightarrow> real \<times> Fuzzer" where
  "self_random_random fz =
     (case random_random (random fz) of (r, g) \<Rightarrow> (r, fz\<lparr> random := g \<rparr>))"

subsection \<open>check_dataplane\<close>

definition check_dataplane_body :: "simulation \<Rightarrow> dp_event \<Rightarrow> Fuzzer \<Rightarrow> Fuzzer outcome" where
  "check_dataplane_body sim dp fz =
     (case self_random_random fz of (r1, fz1) \<Rightarrow>
        if r1 < dataplane_delay_rate (params fz1) then perform [DelayDpEvent dp] fz1
        else (case self_random_random fz1 of (r2, fz2) \<Rightarrow>
          if r2 < dataplane_drop_rate (params fz2)
          then perform (DropDpEvent dp # log_input_event fz2 (DataplaneDrop (fingerprint dp))) fz2
          else if ok_to_send sim dp
          then perform (PermitDpEvent dp # log_input_event fz2 (DataplanePermit (fingerprint dp))) fz2
          else returns fz2))"

definition check_dataplane :: "Fuzzer \<Rightarrow> simulation \<Rightarrow> Fuzzer outcome" where
  "check_dataplane fz sim = for_each (check_dataplane_body sim) (queued_dataplane_events sim) fz"

subsection \<open>check_tcp_connections\<close>

text \<open>
  Both loops reach for \<open>self.topology\<close>. A \<open>Fuzzer\<close> has no attribute of that name (the
  topology is \<open>self.simulation.topology\<close>), so the lookup raises \<open>AttributeError\<close>
  before \<open>block_connection\<close> or \<open>unblock_connection\<close> is called and before the record is
  logged.
\<close>

definition block_body :: "software_switch \<times> DeferredOFConnection \<Rightarrow> Fuzzer \<Rightarrow> Fuzzer outcome" where
  "block_body sc fz =
     (case self_random_random fz of (r, fz1) \<Rightarrow>
        if r < controlplane_block_rate (params fz1) then raises AttributeError
        else returns fz1)"

definition unblock_body :: "software_switch \<times> DeferredOFConnection \<Rightarrow> Fuzzer \<Rightarrow> Fuzzer outcome" where
  "unblock_body sc fz =
     (case self_random_random fz of (r, fz1) \<Rightarrow>
        if r < controlplane_unblock_rate (params fz1) then raises AttributeError
        else returns fz1)"

definition check_tcp_connections :: "Fuzzer \<Rightarrow> simulation \<Rightarrow> Fuzzer outcome" where
  "check_tcp_connections fz sim =
     and_then (for_each block_body (unblocked_controller_connections sim) fz)
       (for_each unblock_body (blocked_controller_connections sim))"

subsection \<open>check_message_receipts\<close>

definition check_message_receipts_body :: "pending_receipt \<Rightarrow> Fuzzer \<Rightarrow> Fuzzer outcome" where
  "check_message_receipts_body pr fz =
     (case self_random_random fz of (r, fz1) \<Rightarrow>
        if r < ofp_message_receipt_rate (params fz1)
        then perform (Schedule pr #
               log_input_event fz1
                 (ControlMessageReceive (receipt_fingerprint pr) (receipt_dpid pr) (controller_id pr)))
               fz1
        else returns fz1)"

definition check_message_receipts :: "Fuzzer \<Rightarrow> simulation \<Rightarrow> Fuzzer outcome" where
  "check_message_receipts fz sim = for_each check_message_receipts_body (pending_receives sim) fz"

subsection \<open>check_switch_crashes\<close>

definition crash_switches_body ::
  "software_switch \<Rightarrow> Fuzzer \<times> software_switch set \<Rightarrow> (Fuzzer \<times> software_switch set) outcome" where
  "crash_switches_body sw st =
     (case st of (fz, crashed_this_round) \<Rightarrow>
      case self_random_random fz of (r, fz1) \<Rightarrow>
        if r < switch_failure_rate (params fz1)
        then perform (CrashSwitch sw # log_input_event fz1 (SwitchFailure (switch_dpid sw)))
               (fz1, insert sw crashed_this_round)
        else returns (fz1, crashed_this_round))"

definition crash_switches :: "Fuzzer \<Rightarrow> simulation \<Rightarrow> (Fuzzer \<times> software_switch set) outcome" where
  "crash_switches fz sim = for_each crash_switches_body (live_switches sim) (fz, {})"

definition restart_switches_body ::
  "software_switch set \<Rightarrow> software_switch \<Rightarrow> Fuzzer \<Rightarrow> Fuzzer outcome" where
  "restart_switches_body crashed_this_round sw fz =
     (if sw \<in> crashed_this_round then returns fz
      else case self_random_random fz of (r, fz1) \<Rightarrow>
        if r < switch_recovery_rate (params fz1)
        then perform (RecoverSwitch sw # log_input_event fz1 (SwitchRecovery (switch_dpid sw))) fz1
        else returns fz1)"

definition restart_switches ::
  "software_switch set \<Rightarrow> Fuzzer \<Rightarrow> simulation \<Rightarrow> Fuzzer outcome" where
  "restart_switches crashed_this_round fz sim =
     for_each (restart_switches_body crashed_this_round) (failed_switches sim) fz"

definition sever_links_body ::
  "link \<Rightarrow> Fuzzer \<times> link set \<Rightarrow> (Fuzzer \<times> link set) outcome" where
  "sever_links_body l st =
     (case st of (fz, cut_this_round) \<Rightarrow>
      case self_random_random fz of (r, fz1) \<Rightarrow>
        if r < link_failure_rate (params fz1)
        then perform (SeverLink l #
               log_input_event fz1
                 (LinkFailure (start_dpid l) (start_port_no l) (end_dpid l) (end_port_no l)))
               (fz1, insert l cut_this_round)
        else returns (fz1, cut_this_round))"

definition sever_links :: "Fuzzer \<Rightarrow> simulation \<Rightarrow> (Fuzzer \<times> link set) outcome" where
  "sever_links fz sim = for_each sever_links_body (live_links sim) (fz, {})"

definition repair_links_body :: "link set \<Rightarrow> link \<Rightarrow> Fuzzer \<Rightarrow> Fuzzer outcome" where
  "repair_links_body cut_this_round l fz =
     (if l \<in> cut_this_round then returns fz
      else case self_random_random fz of (r, fz1) \<Rightarrow>
        if r < link_recovery_rate (params fz1)
        then perform (RepairLink l #
               log_input_event fz1
                 (LinkRecovery (start_dpid l) (start_port_no l) (end_dpid l) (end_port_no l)))
               fz1
        else returns fz1)"

definition repair_links :: "link set \<Rightarrow> Fuzzer \<Rightarrow> simulation \<Rightarrow> Fuzzer outcome" where
  "repair_links cut_this_round fz sim =
     for_each (repair_links_body cut_this_round) (cut_links sim) fz"

definition check_switch_crashes :: "Fuzzer \<Rightarrow> simulation \<Rightarrow> Fuzzer outcome" where
  "check_switch_crashes fz sim =
     and_then (crash_switches fz sim) (\<lambda>(fz1, crashed_this_round).
     and_then (restart_switches crashed_this_round fz1 sim) (\<lambda>fz2.
     and_then (sever_links fz2 sim) (\<lambda>(fz3, cut_this_round).
     repair_links cut_this_round fz3 sim)))"

subsection \<open>fuzz_traffic\<close>

definition fuzz_traffic_body :: "environment \<Rightarrow> host \<Rightarrow> Fuzzer \<Rightarrow> Fuzzer outcome" where
  "fuzz_traffic_body env h fz =
     (case self_random_random fz of (r, fz1) \<Rightarrow>
        if r < traffic_generation_rate (params fz1) then
          if length (interfaces h) > 0 then
            (case traffic_generator_generate env (random fz1) ''icmp_ping'' h of (dp, k) \<Rightarrow>
               let fz2 = fz1\<lparr> random := (random fz1)\<lparr> drawn := drawn (random fz1) + k \<rparr> \<rparr>
               in perform ([Console ''injecting a random packet'', Generate ''icmp_ping'' h]
                            @ log_input_event fz2 (TrafficInjection dp)) fz2)
          else returns fz1
        else returns fz1)"

definition fuzz_traffic :: "environment \<Rightarrow> Fuzzer \<Rightarrow> simulation \<Rightarrow> Fuzzer outcome" where
  "fuzz_traffic env fz sim =
     (if dataplane_trace sim = None then for_each (fuzz_traffic_body env) (hosts sim) fz
      else returns fz)"

subsection \<open>check_controllers\<close>

definition crash_controllers_body ::
  "controller \<Rightarrow> Fuzzer \<times> controller set \<Rightarrow> (Fuzzer \<times> controller set) outcome" where
  "crash_controllers_body c st =
     (case st of (fz, crashed_this_round) \<Rightarrow>
      case self_random_random fz of (r, fz1) \<Rightarrow>
        if r < controller_crash_rate (params fz1)
        then perform (Kill c # log_input_event fz1 (ControllerCrash (uuid c)))
               (fz1, insert c crashed_this_round)
        else returns (fz1, crashed_this_round))"

definition crash_controllers :: "Fuzzer \<Rightarrow> simulation \<Rightarrow> (Fuzzer \<times> controller set) outcome" where
  "crash_controllers fz sim = for_each crash_controllers_body (live_controllers sim) (fz, {})"

definition reboot_controllers_body :: "controller set \<Rightarrow> controller \<Rightarrow> Fuzzer \<Rightarrow> Fuzzer outcome" where
  "reboot_controllers_body crashed_this_round c fz =
     (if c \<in> crashed_this_round then returns fz
      else case self_random_random fz of (r, fz1) \<Rightarrow>
        if r < controller_recovery_rate (params fz1)
        then perform (Start c # log_input_event fz1 (ControllerRecovery (uuid c))) fz1
        else returns fz1)"

definition reboot_controllers :: "controller set \<Rightarrow> Fuzzer \<Rightarrow> simulation \<Rightarrow> Fuzzer outcome" where
  "reboot_controllers crashed_this_round fz sim =
     for_each (reboot_controllers_body crashed_this_round) (down_controllers sim) fz"

definition check_controllers :: "Fuzzer \<Rightarrow> simulation \<Rightarrow> Fuzzer outcome" where
  "check_controllers fz sim =
     and_then (crash_controllers fz sim) (\<lambda>(fz1, crashed_this_round).
     reboot_controllers crashed_this_round fz1 sim)"

subsection \<open>One round\<close>

definition trigger_events :: "environment \<Rightarrow> Fuzzer \<Rightarrow> simulation \<Rightarrow> Fuzzer outcome" where
  "trigger_events env fz sim =
     and_then (check_dataplane fz sim) (\<lambda>fz1.
     and_then (check_tcp_connections fz1 sim) (\<lambda>fz2.
     and_then (check_message_receipts fz2 sim) (\<lambda>fz3.
     and_then (check_switch_crashes fz3 sim) (\<lambda>fz4.
     and_then (fuzz_traffic env fz4 sim) (\<lambda>fz5.
     check_controllers fz5 sim)))))"

text \<open>
  \<open>maybe_check_correspondence\<close>. The check runs in a thread of its own while the main
  thread sends an echo request to every live switch each time it finds the thread alive;
  the model lists the check, then those keepalives, then the thread's message. With no
  invariant checker set the thread dies on its first line and says nothing. Python's
  \<open>%\<close> raises \<open>ZeroDivisionError\<close> for a zero interval.
\<close>

definition maybe_check_correspondence ::
  "environment \<Rightarrow> Fuzzer \<Rightarrow> simulation \<Rightarrow> Fuzzer outcome" where
  "maybe_check_correspondence env fz sim =
     (if check_interval fz = 0 then raises ZeroDivisionError
      else if logical_time fz mod check_interval fz = 0 then
        (case correspondence_check env (logical_time fz) of (polls, any_policy_violations) \<Rightarrow>
           perform
             ((case invariant_checker fz of
                 None \<Rightarrow> []
               | Some _ \<Rightarrow> [CheckInvariant ''correspondence''])
              @ concat (replicate polls (map EchoRequest (live_switches sim)))
              @ (case invariant_checker fz of
                   None \<Rightarrow> []
                 | Some _ \<Rightarrow>
                     [Console (if any_policy_violations then ''There were policy-violations!''
                               else ''No policy-violations!'')]))
             fz)
      else returns fz)"

definition maybe_inject_trace_event :: "Fuzzer \<Rightarrow> simulation \<Rightarrow> Fuzzer outcome" where
  "maybe_inject_trace_event fz sim =
     (case dataplane_trace sim of
        None \<Rightarrow> returns fz
      | Some inject_trace_event \<Rightarrow>
          if trace_interval fz = 0 then raises ZeroDivisionError
          else if logical_time fz mod trace_interval fz = 0
          then perform (InjectTraceEvent #
                 log_input_event fz (TrafficInjection (inject_trace_event 0))) fz
          else returns fz)"

text \<open>\<open>time.sleep\<close> refuses a negative length with \<open>IOError\<close>.\<close>

definition time_sleep :: "real \<Rightarrow> 'a \<Rightarrow> 'a outcome" where
  "time_sleep d x = (if d < 0 then raises IOError else perform [Sleep d] x)"

text \<open>The body of the \<open>while\<close> loop of \<open>Fuzzer.loop\<close>.\<close>

definition Fuzzer_round :: "environment \<Rightarrow> Fuzzer \<Rightarrow> Fuzzer outcome" where
  "Fuzzer_round env fz =
     (let fz1 = fz\<lparr> logical_time := logical_time fz + 1 \<rparr>;
          sim = simulation_in_round env (logical_time fz1)
      in and_then (trigger_events env fz1 sim) (\<lambda>fz2.
         and_then (perform [Console ''Round %d completed.''] fz2) (\<lambda>fz3.
         and_then (maybe_check_correspondence env fz3 sim) (\<lambda>fz4.
         and_then (maybe_inject_trace_event fz4 sim) (\<lambda>fz5.
         time_sleep (delay fz5) fz5)))))"

definition sys_maxint :: int where
  "sys_maxint = 2 ^ 63 - 1"

subsection \<open>What the checks leave of the Fuzzer\<close>

text \<open>
  The checks change nothing of the Fuzzer but the number of draws taken from its
  generator. The loop's termination rests on that: a round that returns has advanced
  \<open>logical_time\<close> by one.
\<close>

definition rewound :: "Fuzzer \<Rightarrow> Fuzzer" where
  "rewound fz = fz\<lparr> random := (random fz)\<lparr> drawn := 0 \<rparr> \<rparr>"

definition only_drew :: "Fuzzer \<Rightarrow> Fuzzer \<Rightarrow> bool" where
  "only_drew fz fz' = (rewound fz' = rewound fz)"

lemma only_drew_refl: "only_drew fz fz"
  by (simp add: only_drew_def)

lemma only_drew_trans: "only_drew a b \<Longrightarrow> only_drew b c \<Longrightarrow> only_drew a c"
  by (simp add: only_drew_def)

lemma only_drew_update: "only_drew fz (fz\<lparr> random := (random fz)\<lparr> drawn := n \<rparr> \<rparr>)"
  by (simp add: only_drew_def rewound_def)

lemma self_random_random_only_drew: "self_random_random fz = (r, fz1) \<Longrightarrow> only_drew fz fz1"
  by (auto simp: self_random_random_def random_random_def only_drew_def rewound_def)

lemma and_then_Inr:
  assumes "and_then m f = (as, Inr z)"
  obtains bs y cs where "m = (bs, Inr y)" and "f y = (cs, Inr z)" and "as = bs @ cs"
  using assms by (auto simp: and_then_def split: prod.splits sum.splits)

lemma for_each_relates:
  assumes run: "for_each body xs s = (as, Inr s')"
    and step: "\<And>x s as s'. body x s = (as, Inr s') \<Longrightarrow> R s s'"
    and refl: "\<And>s. R s s"
    and trans: "\<And>a b c. R a b \<Longrightarrow> R b c \<Longrightarrow> R a c"
  shows "R s s'"
  using run
proof (induction xs arbitrary: s as)
  case Nil
  then show ?case by (simp add: returns_def refl)
next
  case (Cons x xs)
  from Cons.prems obtain bs y cs where
    first: "body x s = (bs, Inr y)" and rest: "for_each body xs y = (cs, Inr s')"
    by (auto elim: and_then_Inr)
  from step[OF first] Cons.IH[OF rest] show ?case by (rule trans)
qed

lemma for_each_only_drew:
  assumes "for_each body xs s = (as, Inr s')"
    and "\<And>x s as s'. body x s = (as, Inr s') \<Longrightarrow> only_drew s s'"
  shows "only_drew s s'"
  using assms(1)
  by (rule for_each_relates[where R = only_drew])
     (blast intro: assms(2) only_drew_refl only_drew_trans)+

lemma for_each_fst_only_drew:
  assumes "for_each body xs s = (as, Inr s')"
    and "\<And>x s as s'. body x s = (as, Inr s') \<Longrightarrow> only_drew (fst s) (fst s')"
  shows "only_drew (fst s) (fst s')"
  using assms(1)
  by (rule for_each_relates[where R = "\<lambda>s s'. only_drew (fst s) (fst s')"])
     (blast intro: assms(2) only_drew_refl only_drew_trans)+

lemma check_dataplane_body_only_drew:
  "check_dataplane_body sim dp fz = (as, Inr fz') \<Longrightarrow> only_drew fz fz'"
  by (auto simp: check_dataplane_body_def perform_def returns_def
        split: prod.splits if_splits
        dest!: self_random_random_only_drew intro: only_drew_trans)

lemma block_body_only_drew: "block_body sc fz = (as, Inr fz') \<Longrightarrow> only_drew fz fz'"
  by (auto simp: block_body_def raises_def returns_def split: prod.splits if_splits
        dest!: self_random_random_only_drew)

lemma unblock_body_only_drew: "unblock_body sc fz = (as, Inr fz') \<Longrightarrow> only_drew fz fz'"
  by (auto simp: unblock_body_def raises_def returns_def split: prod.splits if_splits
        dest!: self_random_random_only_drew)

lemma check_message_receipts_body_only_drew:
  "check_message_receipts_body pr fz = (as, Inr fz') \<Longrightarrow> only_drew fz fz'"
  by (auto simp: check_message_receipts_body_def perform_def returns_def
        split: prod.splits if_splits dest!: self_random_random_only_drew)

lemma crash_switches_body_only_drew:
  "crash_switches_body sw st = (as, Inr st') \<Longrightarrow> only_drew (fst st) (fst st')"
  by (auto simp: crash_switches_body_def perform_def returns_def
        split: prod.splits if_splits dest!: self_random_random_only_drew)

lemma restart_switches_body_only_drew:
  "restart_switches_body crashed sw fz = (as, Inr fz') \<Longrightarrow> only_drew fz fz'"
  by (auto simp: restart_switches_body_def perform_def returns_def only_drew_refl
        split: prod.splits if_splits dest!: self_random_random_only_drew)

lemma sever_links_body_only_drew:
  "sever_links_body l st = (as, Inr st') \<Longrightarrow> only_drew (fst st) (fst st')"
  by (auto simp: sever_links_body_def perform_def returns_def
        split: prod.splits if_splits dest!: self_random_random_only_drew)

lemma repair_links_body_only_drew:
  "repair_links_body severed l fz = (as, Inr fz') \<Longrightarrow> only_drew fz fz'"
  by (auto simp: repair_links_body_def perform_def returns_def only_drew_refl
        split: prod.splits if_splits dest!: self_random_random_only_drew)

lemma fuzz_traffic_body_only_drew:
  "fuzz_traffic_body env h fz = (as, Inr fz') \<Longrightarrow> only_drew fz fz'"
  by (auto simp: fuzz_traffic_body_def perform_def returns_def Let_def
        split: prod.splits if_splits dest!: self_random_random_only_drew
        intro: only_drew_trans[OF _ only_drew_update])

lemma crash_controllers_body_only_drew:
  "crash_controllers_body c st = (as, Inr st') \<Longrightarrow> only_drew (fst st) (fst st')"
  by (auto simp: crash_controllers_body_def perform_def returns_def
        split: prod.splits if_splits dest!: self_random_random_only_drew)

lemma reboot_controllers_body_only_drew:
  "reboot_controllers_body crashed c fz = (as, Inr fz') \<Longrightarrow> only_drew fz fz'"
  by (auto simp: reboot_controllers_body_def perform_def returns_def only_drew_refl
        split: prod.splits if_splits dest!: self_random_random_only_drew)

lemma check_dataplane_only_drew: "check_dataplane fz sim = (as, Inr fz') \<Longrightarrow> only_drew fz fz'"
  unfolding check_dataplane_def
  by (erule for_each_only_drew) (rule check_dataplane_body_only_drew)


lemma check_tcp_connections_only_drew:
  assumes "check_tcp_connections fz sim = (as, Inr fz')"
  shows "only_drew fz fz'"
proof -
  from assms obtain bs fz1 cs where
    a: "for_each block_body (unblocked_controller_connections sim) fz = (bs, Inr fz1)" and
    b: "for_each unblock_body (blocked_controller_connections sim) fz1 = (cs, Inr fz')"
    unfolding check_tcp_connections_def by (auto elim: and_then_Inr)
  from for_each_only_drew[OF a block_body_only_drew]
       for_each_only_drew[OF b unblock_body_only_drew]
  show ?thesis by (rule only_drew_trans)
qed

lemma check_message_receipts_only_drew:
  "check_message_receipts fz sim = (as, Inr fz') \<Longrightarrow> only_drew fz fz'"
  unfolding check_message_receipts_def
  by (erule for_each_only_drew) (rule check_message_receipts_body_only_drew)

lemma check_switch_crashes_only_drew:
  assumes "check_switch_crashes fz sim = (as, Inr fz')"
  shows "only_drew fz fz'"
proof -
  from assms obtain a1 fz1 crashed a2 fz2 a3 fz3 severed a4 where
    s1: "crash_switches fz sim = (a1, Inr (fz1, crashed))" and
    s2: "restart_switches crashed fz1 sim = (a2, Inr fz2)" and
    s3: "sever_links fz2 sim = (a3, Inr (fz3, severed))" and
    s4: "repair_links severed fz3 sim = (a4, Inr fz')"
    unfolding check_switch_crashes_def
    by (auto elim!: and_then_Inr split: prod.splits)
  have "only_drew fz fz1"
    using for_each_fst_only_drew[OF s1[unfolded crash_switches_def] crash_switches_body_only_drew]
    by simp
  moreover have "only_drew fz1 fz2"
    using s2 unfolding restart_switches_def
    by (rule for_each_only_drew) (rule restart_switches_body_only_drew)
  moreover have "only_drew fz2 fz3"
    using for_each_fst_only_drew[OF s3[unfolded sever_links_def] sever_links_body_only_drew]
    by simp
  moreover have "only_drew fz3 fz'"
    using s4 unfolding repair_links_def
    by (rule for_each_only_drew) (rule repair_links_body_only_drew)
  ultimately show ?thesis by (blast intro: only_drew_trans)
qed

lemma fuzz_traffic_only_drew:
  "fuzz_traffic env fz sim = (as, Inr fz') \<Longrightarrow> only_drew fz fz'"
  unfolding fuzz_traffic_def
  by (auto simp: returns_def only_drew_refl split: if_splits
        elim: for_each_only_drew[OF _ fuzz_traffic_body_only_drew])

lemma check_controllers_only_drew:
  assumes "check_controllers fz sim = (as, Inr fz')"
  shows "only_drew fz fz'"
proof -
  from assms obtain a1 fz1 crashed a2 where
    s1: "crash_controllers fz sim = (a1, Inr (fz1, crashed))" and
    s2: "reboot_controllers crashed fz1 sim = (a2, Inr fz')"
    unfolding check_controllers_def
    by (auto elim!: and_then_Inr split: prod.splits)
  have "only_drew fz fz1"
    using for_each_fst_only_drew[OF s1[unfolded crash_controllers_def] crash_controllers_body_only_drew]
    by simp
  moreover have "only_drew fz1 fz'"
    using s2 unfolding reboot_controllers_def
    by (rule for_each_only_drew) (rule reboot_controllers_body_only_drew)
  ultimately show ?thesis by (rule only_drew_trans)
qed

lemma trigger_events_only_drew:
  assumes "trigger_events env fz sim = (as, Inr fz')"
  shows "only_drew fz fz'"
proof -
  from assms obtain a1 fz1 a2 fz2 a3 fz3 a4 fz4 a5 fz5 a6 where
    "check_dataplane fz sim = (a1, Inr fz1)"
    "check_tcp_connections fz1 sim = (a2, Inr fz2)"
    "check_message_receipts fz2 sim = (a3, Inr fz3)"
    "check_switch_crashes fz3 sim = (a4, Inr fz4)"
    "fuzz_traffic env fz4 sim = (a5, Inr fz5)"
    "check_controllers fz5 sim = (a6, Inr fz')"
    unfolding trigger_events_def by (auto elim!: and_then_Inr)
  then show ?thesis
    by (blast intro: only_drew_trans dest: check_dataplane_only_drew
          check_tcp_connections_only_drew check_message_receipts_only_drew
          check_switch_crashes_only_drew fuzz_traffic_only_drew check_controllers_only_drew)
qed

lemma maybe_check_correspondence_same:
  "maybe_check_correspondence env fz sim = (as, Inr fz') \<Longrightarrow> fz' = fz"
  by (auto simp: maybe_check_correspondence_def raises_def returns_def perform_def
        split: if_splits prod.splits)

lemma maybe_inject_trace_event_same:
  "maybe_inject_trace_event fz sim = (as, Inr fz') \<Longrightarrow> fz' = fz"
  by (auto simp: maybe_inject_trace_event_def raises_def returns_def perform_def
        split: if_splits option.splits)

lemma time_sleep_same: "time_sleep d x = (as, Inr y) \<Longrightarrow> y = x"
  by (auto simp: time_sleep_def raises_def perform_def split: if_splits)

lemma Fuzzer_round_only_drew:
  assumes "Fuzzer_round env fz = (as, Inr fz')"
  shows "only_drew (fz\<lparr> logical_time := logical_time fz + 1 \<rparr>) fz'"
proof -
  let ?fz1 = "fz\<lparr> logical_time := logical_time fz + 1 \<rparr>"
  let ?sim = "simulation_in_round env (logical_time ?fz1)"
  from assms obtain a1 fz2 a2 fz3 a3 fz4 a4 fz5 a5 where
    t: "trigger_events env ?fz1 ?sim = (a1, Inr fz2)" and
    m: "perform [Console ''Round %d completed.''] fz2 = (a2, Inr fz3)" and
    c: "maybe_check_correspondence env fz3 ?sim = (a3, Inr fz4)" and
    i: "maybe_inject_trace_event fz4 ?sim = (a4, Inr fz5)" and
    s: "time_sleep (delay fz5) fz5 = (a5, Inr fz')"
    unfolding Fuzzer_round_def Let_def by (auto elim!: and_then_Inr)
  from m have "fz3 = fz2" by (simp add: perform_def)
  with maybe_check_correspondence_same[OF c] maybe_inject_trace_event_same[OF i]
       time_sleep_same[OF s]
  have "fz' = fz2" by simp
  with trigger_events_only_drew[OF t] show ?thesis by simp
qed

lemma only_drew_logical_time: "only_drew fz fz' \<Longrightarrow> logical_time fz' = logical_time fz"
proof -
  assume "only_drew fz fz'"
  then have "logical_time (rewound fz') = logical_time (rewound fz)"
    by (simp add: only_drew_def)
  then show ?thesis by (simp add: rewound_def)
qed

lemma Fuzzer_round_logical_time:
  "Fuzzer_round env fz = (as, Inr fz') \<Longrightarrow> logical_time fz' = logical_time fz + 1"
  by (drule Fuzzer_round_only_drew) (simp add: only_drew_logical_time)


subsection \<open>The loop\<close>

function Fuzzer_loop_while :: "environment \<Rightarrow> int \<Rightarrow> Fuzzer \<Rightarrow> Fuzzer outcome" where
  "Fuzzer_loop_while env end_time fz =
     (if logical_time fz < end_time then
        (case Fuzzer_round env fz of
           (as, Inl e) \<Rightarrow> (as, Inl e)
         | (as, Inr fz1) \<Rightarrow>
             (case Fuzzer_loop_while env end_time fz1 of (bs, r) \<Rightarrow> (as @ bs, r)))
      else ([], Inr fz))"
  by pat_completeness auto
termination
  by (relation "measure (\<lambda>(env, end_time, fz). nat (end_time - logical_time fz))")
     (auto dest: Fuzzer_round_logical_time[OF sym])

declare Fuzzer_loop_while.simps [simp del]

text \<open>
  \<open>Fuzzer.loop\<close>: the bound of the \<open>while\<close> loop, the loop inside \<open>try\<close>, and the
  \<open>finally\<close> block, which runs whether the loop returned or raised.
\<close>

definition Fuzzer_loop :: "environment \<Rightarrow> Fuzzer \<Rightarrow> Fuzzer outcome" where
  "Fuzzer_loop env fz =
     (let end_time = (case steps fz of
                        None \<Rightarrow> sys_maxint
                      | Some n \<Rightarrow> if n \<noteq> 0 then logical_time fz + n else sys_maxint)
      in case Fuzzer_loop_while env end_time fz of
           (as, r) \<Rightarrow> (as @ (if input_logger fz \<noteq> None then [Close] else []), r))"

definition Fuzzer_simulate :: "environment \<Rightarrow> Fuzzer \<Rightarrow> Fuzzer outcome" where
  "Fuzzer_simulate env fz =
     (if patch_panel_is_buffered (simulation_in_round env (logical_time fz))
      then (case Fuzzer_loop env fz of (as, r) \<Rightarrow> (BootstrapSimulation # as, r))
      else ([BootstrapSimulation], Inl AssertionError))"

text \<open>The records that reached the input logger, in order.\<close>

fun logged :: "action list \<Rightarrow> input_event list" where
  "logged [] = []"
| "logged (LogInputEvent ev # as) = ev # logged as"
| "logged (_ # as) = logged as"

section \<open>The order of a round\<close>

text \<open>
  The place of an action in a round as \<open>Fuzzer.trigger_events\<close> and \<open>Fuzzer.loop\<close> run
  it: dataplane 1, control channel 2, message receipts 3, switches 4, links 5, synthetic
  traffic 6, controllers 7, the round message and the correspondence check 8, the trace
  event 9, the sleep 10. A \<open>TrafficInjection\<close> record comes from \<open>fuzz_traffic\<close> when no
  trace is attached and from \<open>maybe_inject_trace_event\<close> when one is.
\<close>

fun logged_phase :: "bool \<Rightarrow> input_event \<Rightarrow> nat" where
  "logged_phase tr (DataplaneDrop _) = 1"
| "logged_phase tr (DataplanePermit _) = 1"
| "logged_phase tr (ControlChannelBlock _ _) = 2"
| "logged_phase tr (ControlChannelUnBlock _ _) = 2"
| "logged_phase tr (ControlMessageReceive _ _ _) = 3"
| "logged_phase tr (SwitchFailure _) = 4"
| "logged_phase tr (SwitchRecovery _) = 4"
| "logged_phase tr (LinkFailure _ _ _ _) = 5"
| "logged_phase tr (LinkRecovery _ _ _ _) = 5"
| "logged_phase tr (TrafficInjection _) = (if tr then 9 else 6)"
| "logged_phase tr (ControllerCrash _) = 7"
| "logged_phase tr (ControllerRecovery _) = 7"

fun code_phase :: "bool \<Rightarrow> action \<Rightarrow> nat" where
  "code_phase tr (DelayDpEvent _) = 1"
| "code_phase tr (DropDpEvent _) = 1"
| "code_phase tr (PermitDpEvent _) = 1"
| "code_phase tr (Schedule _) = 3"
| "code_phase tr (CrashSwitch _) = 4"
| "code_phase tr (RecoverSwitch _) = 4"
| "code_phase tr (SeverLink _) = 5"
| "code_phase tr (RepairLink _) = 5"
| "code_phase tr (Generate _ _) = 6"
| "code_phase tr (Kill _) = 7"
| "code_phase tr (Start _) = 7"
| "code_phase tr (CheckInvariant _) = 8"
| "code_phase tr (EchoRequest _) = 8"
| "code_phase tr (Console s) = (if s = ''injecting a random packet'' then 6 else 8)"
| "code_phase tr InjectTraceEvent = 9"
| "code_phase tr (LogInputEvent ev) = logged_phase tr ev"
| "code_phase tr (Sleep _) = 10"
| "code_phase tr BootstrapSimulation = 0"
| "code_phase tr (RawInput _) = 0"
| "code_phase tr Close = 11"

text \<open>
  The order of section 5 of the specification, in its words: dataplane, control channel,
  message receipts, switch failures, link failures, controller failures, traffic,
  periodic checks. It differs from the above in the places of controllers and traffic.
\<close>

definition spec_phase :: "bool \<Rightarrow> action \<Rightarrow> nat" where
  "spec_phase tr a =
     (let k = code_phase tr a in if k = 6 then 7 else if k = 7 then 6 else k)"

section \<open>Concrete inputs\<close>

text \<open>
  A simulation with nothing in it, parameters with every rate 0, and an environment whose
  generator always draws one half, whose traffic generator names the packet after the
  host without drawing, whose simulation looks the same in every round and whose
  correspondence check finds nothing.
\<close>

definition empty_simulation :: simulation where
  "empty_simulation =
     \<lparr> patch_panel_is_buffered = True,
       queued_dataplane_events = [],
       ok_to_send = (\<lambda>dp. True),
       unblocked_controller_connections = [],
       blocked_controller_connections = [],
       pending_receives = [],
       live_switches = [],
       failed_switches = [],
       live_links = [],
       cut_links = [],
       hosts = [],
       live_controllers = [],
       down_controllers = [],
       dataplane_trace = None \<rparr>"

definition zero_params :: fuzzer_params where
  "zero_params =
     \<lparr> dataplane_delay_rate = 0,
       dataplane_drop_rate = 0,
       controlplane_block_rate = 0,
       controlplane_unblock_rate = 0,
       ofp_message_receipt_rate = 0,
       switch_failure_rate = 0,
       switch_recovery_rate = 0,
       link_failure_rate = 0,
       link_recovery_rate = 0,
       traffic_generation_rate = 0,
       controller_crash_rate = 0,
       controller_recovery_rate = 0 \<rparr>"

definition steady_environment :: "simulation \<Rightarrow> environment" where
  "steady_environment sim =
     \<lparr> Random_of_seed = (\<lambda>s n. 1 / 2),
       traffic_generator_generate = (\<lambda>g traffic_type h. (DpEvent (host_name h), 0)),
       simulation_in_round = (\<lambda>t. sim),
       correspondence_check = (\<lambda>t. (0, False)) \<rparr>"

text \<open>
  A Fuzzer as \<open>Fuzzer.__init__\<close> builds it in that environment from seed 0, the default
  intervals and delay, a budget of one round and the given parameters and logger.
\<close>

definition fuzzer_with :: "fuzzer_params \<Rightarrow> InputLogger option \<Rightarrow> Fuzzer" where
  "fuzzer_with p lg =
     \<lparr> invariant_checker = None, check_interval = 35, trace_interval = 10, seed = 0,
       random = \<lparr> draws = (\<lambda>n. 1 / 2), drawn = 0 \<rparr>, delay = 1 / 10, steps = Some 1,
       params = p, input_logger = lg, logical_time = 0 \<rparr>"

section \<open>Properties of the pending-state-change multiset\<close>

lemma stored_positive_init: "stored_positive ReplaySyncCallback_init"
  by (simp add: stored_positive_def ReplaySyncCallback_init_def)

lemma stored_positive_nonneg:
  "stored_positive cb \<Longrightarrow> 0 \<le> Counter_getitem (pending_state_changes cb) p"
  by (fastforce simp: stored_positive_def Counter_getitem_def split: option.splits
        intro: less_imp_le)

lemma stored_positive_state_change:
  assumes "stored_positive cb"
  shows "stored_positive (state_change cb ctl tm fp nm val)"
proof -
  have "0 \<le> Counter_getitem (pending_state_changes cb) q" for q
    using assms by (rule stored_positive_nonneg)
  then show ?thesis
    using assms by (auto simp: stored_positive_def state_change_def Let_def intro: add_nonneg_pos)
qed

lemma stored_positive_gc:
  assumes "stored_positive cb"
  shows "stored_positive (gc_pending_state_change cb p)"
  using assms
  by (auto simp: stored_positive_def gc_pending_state_change_def Let_def Counter_getitem_def
           split: if_splits)

lemma stored_positive_apply_call:
  "stored_positive cb \<Longrightarrow> stored_positive (apply_call cb c)"
  by (cases c) (simp_all add: stored_positive_state_change stored_positive_gc)

lemma stored_positive_apply_calls:
  "stored_positive cb \<Longrightarrow> stored_positive (apply_calls cb cs)"
  unfolding apply_calls_def
  by (induction cs arbitrary: cb) (simp_all add: stored_positive_apply_call)

lemma gc_absent_unchanged:
  assumes "pending_state_changes cb p = None"
  shows "gc_pending_state_change cb p = cb"
proof -
  have "(pending_state_changes cb)(p := None) = pending_state_changes cb"
    using assms by (simp add: fun_upd_idem)
  then show ?thesis
    using assms by (simp add: gc_pending_state_change_def Let_def Counter_getitem_def)
qed

lemma count_apply_call_produce:
  assumes "\<not> collects p c"
  shows "Counter_getitem (pending_state_changes (apply_call cb c)) p =
         Counter_getitem (pending_state_changes cb) p + (if produces p c then 1 else 0)"
proof (cases c)
  case (StateChange ctl tm fp nm val)
  then show ?thesis
    by (simp add: state_change_def Let_def Counter_getitem_def)
next
  case (GcPendingStateChange q)
  with assms have "p \<noteq> q" by simp
  with GcPendingStateChange show ?thesis
    by (simp add: gc_pending_state_change_def Let_def Counter_getitem_def)
qed

lemma count_apply_calls_produce:
  assumes "\<forall>c\<in>set cs. \<not> collects p c"
  shows "Counter_getitem (pending_state_changes (apply_calls cb cs)) p =
         Counter_getitem (pending_state_changes cb) p + int (length (filter (produces p) cs))"
  using assms unfolding apply_calls_def
proof (induction cs arbitrary: cb)
  case Nil
  then show ?case by simp
next
  case (Cons c cs)
  then have "\<not> collects p c" and rest: "\<forall>d\<in>set cs. \<not> collects p d" by simp_all
  from count_apply_call_produce[OF \<open>\<not> collects p c\<close>] Cons.IH[OF rest]
  show ?case by simp
qed

lemma count_apply_call_collect:
  assumes "\<not> produces p c" and "stored_positive cb"
  shows "Counter_getitem (pending_state_changes (apply_call cb c)) p =
         max 0 (Counter_getitem (pending_state_changes cb) p - (if collects p c then 1 else 0))"
proof (cases c)
  case (StateChange ctl tm fp nm val)
  with assms(1) have "p \<noteq> PendingStateChange (uuid ctl) tm fp nm val" by simp
  moreover have "0 \<le> Counter_getitem (pending_state_changes cb) p"
    using assms(2) by (rule stored_positive_nonneg)
  ultimately show ?thesis
    using StateChange by (simp add: state_change_def Let_def Counter_getitem_def)
next
  case (GcPendingStateChange q)
  have "0 \<le> Counter_getitem (pending_state_changes cb) p"
    using assms(2) by (rule stored_positive_nonneg)
  then show ?thesis
    using GcPendingStateChange
    by (auto simp: gc_pending_state_change_def Let_def Counter_getitem_def split: option.splits)
qed

lemma count_apply_calls_collect:
  assumes "\<forall>c\<in>set cs. \<not> produces p c" and "stored_positive cb"
  shows "Counter_getitem (pending_state_changes (apply_calls cb cs)) p =
         max 0 (Counter_getitem (pending_state_changes cb) p
                  - int (length (filter (collects p) cs)))"
  using assms unfolding apply_calls_def
proof (induction cs arbitrary: cb)
  case Nil
  then show ?case by (simp add: stored_positive_nonneg)
next
  case (Cons c cs)
  then have c: "\<not> produces p c" and rest: "\<forall>d\<in>set cs. \<not> produces p d" by simp_all
  have pos: "stored_positive (apply_call cb c)"
    using Cons.prems(2) by (rule stored_positive_apply_call)
  from count_apply_call_collect[OF c Cons.prems(2)] Cons.IH[OF rest pos]
  show ?case by auto
qed

lemma zero_count_absent:
  assumes "stored_positive cb" and "Counter_getitem (pending_state_changes cb) p = 0"
  shows "pending_state_changes cb p = None"
  using assms by (auto simp: stored_positive_def Counter_getitem_def split: option.splits)

text \<open>
  Claim C5. Starting from a fresh callback object, let a sequence of calls contain
  \<open>k > 0\<close> calls of \<open>state_change\<close> that produce the key \<open>p\<close> and no
  \<open>gc_pending_state_change(p)\<close>: then \<open>state_change_pending(p)\<close> is true and the count of
  \<open>p\<close> is \<open>k\<close>. After a further sequence holding \<open>k\<close> calls of
  \<open>gc_pending_state_change(p)\<close> and no new report of \<open>p\<close>, the count of \<open>p\<close> is 0 and
  \<open>p\<close> is absent from the stored dict.
\<close>

theorem pending_state_change_counts:
  assumes "0 < k"
    and "length (filter (produces p) cs) = k"
    and "\<forall>c\<in>set cs. \<not> collects p c"
    and "length (filter (collects p) ds) = k"
    and "\<forall>d\<in>set ds. \<not> produces p d"
  shows "state_change_pending (apply_calls ReplaySyncCallback_init cs) p
       \<and> Counter_getitem (pending_state_changes (apply_calls ReplaySyncCallback_init cs)) p = int k
       \<and> Counter_getitem (pending_state_changes
            (apply_calls (apply_calls ReplaySyncCallback_init cs) ds)) p = 0
       \<and> pending_state_changes (apply_calls (apply_calls ReplaySyncCallback_init cs) ds) p = None"
proof -
  let ?cb = "apply_calls ReplaySyncCallback_init cs"
  have cnt: "Counter_getitem (pending_state_changes ?cb) p = int k"
    using count_apply_calls_produce[OF assms(3), of ReplaySyncCallback_init] assms(2)
    by (simp add: ReplaySyncCallback_init_def Counter_getitem_def)
  have pend: "state_change_pending ?cb p"
    using cnt assms(1) by (simp add: state_change_pending_def)
  have pos: "stored_positive ?cb"
    by (rule stored_positive_apply_calls[OF stored_positive_init])
  have zero: "Counter_getitem (pending_state_changes (apply_calls ?cb ds)) p = 0"
    using count_apply_calls_collect[OF assms(5) pos] cnt assms(4) by simp
  have "stored_positive (apply_calls ?cb ds)"
    using pos by (rule stored_positive_apply_calls)
  then have "pending_state_changes (apply_calls ?cb ds) p = None"
    using zero by (rule zero_count_absent)
  with cnt pend zero show ?thesis by simp
qed

theorem pending_state_change_counts_witness:
  "state_change_pending
     (apply_calls ReplaySyncCallback_init
        [StateChange \<lparr>uuid = ''c1''\<rparr> (SyncTime 1 0) ''fp'' ''link'' ''up'',
         StateChange \<lparr>uuid = ''c2''\<rparr> (SyncTime 1 5) ''fq'' ''link'' ''down'',
         StateChange \<lparr>uuid = ''c1''\<rparr> (SyncTime 1 0) ''fp'' ''link'' ''up''])
     (PendingStateChange ''c1'' (SyncTime 1 0) ''fp'' ''link'' ''up'')
   \<and> pending_state_changes
       (apply_calls
          (apply_calls ReplaySyncCallback_init
             [StateChange \<lparr>uuid = ''c1''\<rparr> (SyncTime 1 0) ''fp'' ''link'' ''up'',
              StateChange \<lparr>uuid = ''c2''\<rparr> (SyncTime 1 5) ''fq'' ''link'' ''down'',
              StateChange \<lparr>uuid = ''c1''\<rparr> (SyncTime 1 0) ''fp'' ''link'' ''up''])
          [GcPendingStateChange (PendingStateChange ''c1'' (SyncTime 1 0) ''fp'' ''link'' ''up''),
           GcPendingStateChange (PendingStateChange ''c1'' (SyncTime 1 0) ''fp'' ''link'' ''up'')])
       (PendingStateChange ''c1'' (SyncTime 1 0) ''fp'' ''link'' ''up'') = None"
  using pending_state_change_counts
    [of 2 "PendingStateChange ''c1'' (SyncTime 1 0) ''fp'' ''link'' ''up''"
       "[StateChange \<lparr>uuid = ''c1''\<rparr> (SyncTime 1 0) ''fp'' ''link'' ''up'',
         StateChange \<lparr>uuid = ''c2''\<rparr> (SyncTime 1 5) ''fq'' ''link'' ''down'',
         StateChange \<lparr>uuid = ''c1''\<rparr> (SyncTime 1 0) ''fp'' ''link'' ''up'']"
       "[GcPendingStateChange (PendingStateChange ''c1'' (SyncTime 1 0) ''fp'' ''link'' ''up''),
         GcPendingStateChange (PendingStateChange ''c1'' (SyncTime 1 0) ''fp'' ''link'' ''up'')]"]
  by simp

text \<open>
  Claim C10. After any sequence of \<open>state_change\<close> and \<open>gc_pending_state_change\<close> calls on
  a fresh callback object, every key stored in the dict has a strictly positive count; and
  \<open>gc_pending_state_change\<close> on a key that is not pending there (count zero, hence absent)
  returns the object unchanged.
\<close>

theorem stored_counts_positive:
  "(\<forall>q n. pending_state_changes (apply_calls ReplaySyncCallback_init cs) q = Some n \<longrightarrow> 0 < n)
   \<and> (\<not> state_change_pending (apply_calls ReplaySyncCallback_init cs) p \<longrightarrow>
        gc_pending_state_change (apply_calls ReplaySyncCallback_init cs) p
          = apply_calls ReplaySyncCallback_init cs)"
proof -
  let ?cb = "apply_calls ReplaySyncCallback_init cs"
  have pos: "stored_positive ?cb"
    by (rule stored_positive_apply_calls[OF stored_positive_init])
  have "gc_pending_state_change ?cb p = ?cb" if "\<not> state_change_pending ?cb p"
  proof -
    have "0 \<le> Counter_getitem (pending_state_changes ?cb) p"
      using pos by (rule stored_positive_nonneg)
    with that have "Counter_getitem (pending_state_changes ?cb) p = 0"
      by (simp add: state_change_pending_def)
    with pos have "pending_state_changes ?cb p = None"
      by (rule zero_count_absent)
    then show ?thesis by (rule gc_absent_unchanged)
  qed
  with pos show ?thesis
    unfolding stored_positive_def by blast
qed

theorem stored_counts_positive_witness:
  "pending_state_changes
     (apply_calls ReplaySyncCallback_init
        [StateChange \<lparr>uuid = ''c1''\<rparr> (SyncTime 1 0) ''fp'' ''link'' ''up'',
         GcPendingStateChange (PendingStateChange ''c2'' (SyncTime 1 5) ''fq'' ''link'' ''down'')])
     (PendingStateChange ''c1'' (SyncTime 1 0) ''fp'' ''link'' ''up'') = Some 1
   \<and> (0::int) < 1
   \<and> \<not> state_change_pending
       (apply_calls ReplaySyncCallback_init
          [StateChange \<lparr>uuid = ''c1''\<rparr> (SyncTime 1 0) ''fp'' ''link'' ''up'',
           GcPendingStateChange (PendingStateChange ''c2'' (SyncTime 1 5) ''fq'' ''link'' ''down'')])
       (PendingStateChange ''c2'' (SyncTime 1 5) ''fq'' ''link'' ''down'')
   \<and> gc_pending_state_change
       (apply_calls ReplaySyncCallback_init
          [StateChange \<lparr>uuid = ''c1''\<rparr> (SyncTime 1 0) ''fp'' ''link'' ''up'',
           GcPendingStateChange (PendingStateChange ''c2'' (SyncTime 1 5) ''fq'' ''link'' ''down'')])
       (PendingStateChange ''c2'' (SyncTime 1 5) ''fq'' ''link'' ''down'')
     = apply_calls ReplaySyncCallback_init
          [StateChange \<lparr>uuid = ''c1''\<rparr> (SyncTime 1 0) ''fp'' ''link'' ''up'',
           GcPendingStateChange (PendingStateChange ''c2'' (SyncTime 1 5) ''fq'' ''link'' ''down'')]"
proof -
  let ?cs = "[StateChange \<lparr>uuid = ''c1''\<rparr> (SyncTime 1 0) ''fp'' ''link'' ''up'',
              GcPendingStateChange (PendingStateChange ''c2'' (SyncTime 1 5) ''fq'' ''link'' ''down'')]"
  let ?p = "PendingStateChange ''c2'' (SyncTime 1 5) ''fq'' ''link'' ''down''"
  have a: "pending_state_changes (apply_calls ReplaySyncCallback_init ?cs)
             (PendingStateChange ''c1'' (SyncTime 1 0) ''fp'' ''link'' ''up'') = Some 1"
    by (simp add: apply_calls_def ReplaySyncCallback_init_def state_change_def
          gc_pending_state_change_def Counter_getitem_def Let_def)
  have b: "\<not> state_change_pending (apply_calls ReplaySyncCallback_init ?cs) ?p"
    by (simp add: apply_calls_def ReplaySyncCallback_init_def state_change_def
          gc_pending_state_change_def Counter_getitem_def Let_def state_change_pending_def)
  from stored_counts_positive[of ?cs ?p] a b show ?thesis by simp
qed

section \<open>Properties of the replay clock\<close>

lemma interpolated_time_compute:
  "interpolated_time (compute_interpolated_time r e) =
     SyncTime (seconds (time e)) (max 0 (microSeconds (time e) - 500))"
  by (simp add: compute_interpolated_time_def time_epsilon_microseconds_def Let_def)

lemma dag_compute [simp]: "dag (compute_interpolated_time r e) = dag r"
  by (simp add: compute_interpolated_time_def Let_def)

lemma SyncTime_le_refl: "SyncTime_le a a"
  by (simp add: SyncTime_le_def)

lemma just_before_mono:
  assumes "SyncTime_le a b"
  shows "SyncTime_le (SyncTime (seconds a) (max 0 (microSeconds a - 500)))
                     (SyncTime (seconds b) (max 0 (microSeconds b - 500)))"
  using assms by (auto simp: SyncTime_le_def SyncTime_less_def)

lemma just_before_le:
  assumes "0 \<le> microSeconds a"
  shows "SyncTime_le (SyncTime (seconds a) (max 0 (microSeconds a - 500))) a"
  using assms by (cases a) (auto simp: SyncTime_le_def SyncTime_less_def)

lemma just_before_less:
  assumes "0 < microSeconds a"
  shows "SyncTime_less (SyncTime (seconds a) (max 0 (microSeconds a - 500))) a"
  using assms by (cases a) (auto simp: SyncTime_le_def SyncTime_less_def)

lemma time_answers_append: "time_answers (as @ bs) = time_answers as @ time_answers bs"
  by (induction as rule: time_answers.induct) simp_all

lemma time_answers_replicate:
  "time_answers (replicate n (GetTimeOfDay e t)) = replicate n (e, t)"
  by (induction n) simp_all

lemma time_answers_run:
  "time_answers (EventWatcher_run w r n) = replicate n (event w, interpolated_time r)"
  by (simp add: EventWatcher_run_def get_deterministic_value_def get_interpolated_time_def
        time_answers_replicate)

lemma time_answers_replay_watchers:
  "time_answers (fst (replay_watchers r reads ws)) =
     concat (map (\<lambda>w. replicate (reads (event w))
        (event w, SyncTime (seconds (time (event w)))
                    (max 0 (microSeconds (time (event w)) - 500)))) ws)"
proof (induction ws arbitrary: r)
  case Nil
  then show ?case by simp
next
  case (Cons w ws)
  show ?case
    by (simp add: Let_def split_beta time_answers_append time_answers_run
          interpolated_time_compute increment_round_def Cons.IH)
qed

lemma time_answers_simulate:
  "time_answers (fst (Replayer_simulate r reads)) =
     concat (map (\<lambda>e. replicate (reads e)
        (e, SyncTime (seconds (time e)) (max 0 (microSeconds (time e) - 500))))
        (dag_events (dag r)))"
  by (simp add: Replayer_simulate_def split_beta Let_def time_answers_replay_watchers
        event_watchers_def comp_def)

lemma answers_sorted:
  assumes "sorted_wrt (\<lambda>a b. SyncTime_le (time a) (time b)) es"
  shows "sorted_wrt SyncTime_le (map snd (concat (map (\<lambda>e. replicate (reads e)
        (e, SyncTime (seconds (time e)) (max 0 (microSeconds (time e) - 500)))) es)))"
  using assms
proof (induction es)
  case Nil
  then show ?case by simp
next
  case (Cons e es)
  then have later: "\<forall>x\<in>set es. SyncTime_le (time e) (time x)"
    and rest: "sorted_wrt (\<lambda>a b. SyncTime_le (time a) (time b)) es" by simp_all
  have same: "sorted_wrt SyncTime_le (replicate n t)" for n t
    by (induction n) (simp_all add: SyncTime_le_refl)
  show ?case
    using later Cons.IH[OF rest]
    by (auto simp: sorted_wrt_append same intro: just_before_mono)
qed

lemma Replayer_init_dag: "Replayer_init d = Inr r \<Longrightarrow> dag r = d"
  by (auto simp: Replayer_init_def split: list.splits)

text \<open>
  Claim C3, as the code has it. In one replay pass over a DAG whose events carry
  non-decreasing, well-formed timestamps (microseconds not negative), the clock answers
  never decrease from one query to a later one, and every answer is at most the timestamp
  of the event being replayed, the next landmark; it is strictly less when that
  timestamp's microsecond field is positive.
\<close>

theorem interpolated_time_monotone_bounded:
  assumes "Replayer_init d = Inr r"
    and "sorted_wrt (\<lambda>a b. SyncTime_le (time a) (time b)) (events d)"
    and "\<forall>e\<in>set (events d). 0 \<le> microSeconds (time e)"
  shows "sorted_wrt SyncTime_le (map snd (time_answers (fst (Replayer_simulate r reads))))
       \<and> (\<forall>(e, t)\<in>set (time_answers (fst (Replayer_simulate r reads))).
            SyncTime_le t (time e)
            \<and> (0 < microSeconds (time e) \<longrightarrow> SyncTime_less t (time e)))"
proof -
  have d: "dag_events (dag r) = events d"
    using Replayer_init_dag[OF assms(1)] by (simp add: events_def)
  have mono: "sorted_wrt SyncTime_le (map snd (time_answers (fst (Replayer_simulate r reads))))"
    unfolding time_answers_simulate d using assms(2) by (rule answers_sorted)
  have bound: "SyncTime_le t (time e) \<and> (0 < microSeconds (time e) \<longrightarrow> SyncTime_less t (time e))"
    if "(e, t) \<in> set (time_answers (fst (Replayer_simulate r reads)))" for e t
  proof -
    from that have e: "e \<in> set (events d)"
      and t: "t = SyncTime (seconds (time e)) (max 0 (microSeconds (time e) - 500))"
      unfolding time_answers_simulate d by auto
    from e assms(3) have "0 \<le> microSeconds (time e)" by blast
    then show ?thesis
      unfolding t using just_before_le just_before_less by blast
  qed
  from mono bound show ?thesis by blast
qed

theorem interpolated_time_monotone_bounded_witness:
  "Replayer_init \<lparr> dag_events = [\<lparr> eid = 1, time = SyncTime 1 700 \<rparr>,
                                  \<lparr> eid = 2, time = SyncTime 2 300 \<rparr>] \<rparr>
     = Inr \<lparr> dag = \<lparr> dag_events = [\<lparr> eid = 1, time = SyncTime 1 700 \<rparr>,
                                    \<lparr> eid = 2, time = SyncTime 2 300 \<rparr>] \<rparr>,
             interpolated_time = SyncTime 1 200 \<rparr>
   \<and> time_answers (fst (Replayer_simulate
        \<lparr> dag = \<lparr> dag_events = [\<lparr> eid = 1, time = SyncTime 1 700 \<rparr>,
                                  \<lparr> eid = 2, time = SyncTime 2 300 \<rparr>] \<rparr>,
          interpolated_time = SyncTime 1 200 \<rparr> (reads_each 1)))
     = [(\<lparr> eid = 1, time = SyncTime 1 700 \<rparr>, SyncTime 1 200),
        (\<lparr> eid = 2, time = SyncTime 2 300 \<rparr>, SyncTime 2 0)]
   \<and> sorted_wrt SyncTime_le [SyncTime 1 200, SyncTime 2 0]
   \<and> SyncTime_less (SyncTime 1 200) (SyncTime 1 700)
   \<and> SyncTime_less (SyncTime 2 0) (SyncTime 2 300)"
proof -
  let ?d = "\<lparr> dag_events = [\<lparr> eid = 1, time = SyncTime 1 700 \<rparr>,
                             \<lparr> eid = 2, time = SyncTime 2 300 \<rparr>] \<rparr>"
  let ?r = "\<lparr> dag = ?d, interpolated_time = SyncTime 1 200 \<rparr>"
  have init: "Replayer_init ?d = Inr ?r"
    by (simp add: Replayer_init_def events_def compute_interpolated_time_def
          time_epsilon_microseconds_def Let_def)
  have srt: "sorted_wrt (\<lambda>a b. SyncTime_le (time a) (time b)) (events ?d)"
    by (simp add: events_def SyncTime_le_def SyncTime_less_def)
  have wf: "\<forall>e\<in>set (events ?d). 0 \<le> microSeconds (time e)"
    by (simp add: events_def)
  have ans: "time_answers (fst (Replayer_simulate ?r (reads_each 1)))
     = [(\<lparr> eid = 1, time = SyncTime 1 700 \<rparr>, SyncTime 1 200),
        (\<lparr> eid = 2, time = SyncTime 2 300 \<rparr>, SyncTime 2 0)]"
    by (simp add: time_answers_simulate reads_each_def)
  from interpolated_time_monotone_bounded[OF init srt wf, of "reads_each 1"] init
  show ?thesis unfolding ans by simp
qed

text \<open>
  Claim C3 as stated fails where the landmark's microsecond field is 0: the floor at zero
  makes the answer equal to the landmark's timestamp, not strictly less.
\<close>

theorem interpolated_time_strict_counterexample:
  "Replayer_init \<lparr> dag_events = [\<lparr> eid = 1, time = SyncTime 1 0 \<rparr>,
                                  \<lparr> eid = 2, time = SyncTime 1 0 \<rparr>] \<rparr>
     = Inr \<lparr> dag = \<lparr> dag_events = [\<lparr> eid = 1, time = SyncTime 1 0 \<rparr>,
                                    \<lparr> eid = 2, time = SyncTime 1 0 \<rparr>] \<rparr>,
             interpolated_time = SyncTime 1 0 \<rparr>
   \<and> time_answers (fst (Replayer_simulate
        \<lparr> dag = \<lparr> dag_events = [\<lparr> eid = 1, time = SyncTime 1 0 \<rparr>,
                                  \<lparr> eid = 2, time = SyncTime 1 0 \<rparr>] \<rparr>,
          interpolated_time = SyncTime 1 0 \<rparr> (reads_each 1)))
     = [(\<lparr> eid = 1, time = SyncTime 1 0 \<rparr>, SyncTime 1 0),
        (\<lparr> eid = 2, time = SyncTime 1 0 \<rparr>, SyncTime 1 0)]
   \<and> \<not> SyncTime_less (SyncTime 1 0) (time \<lparr> eid = 1, time = SyncTime 1 0 \<rparr>)
   \<and> \<not> SyncTime_less (SyncTime 1 0) (time \<lparr> eid = 2, time = SyncTime 1 0 \<rparr>)"
  by (simp add: Replayer_init_def events_def compute_interpolated_time_def
        time_epsilon_microseconds_def Let_def time_answers_simulate reads_each_def
        SyncTime_less_def)

section \<open>What MCSFinder returns\<close>

lemma MCSFinder_simulate_mcs: "snd (snd (MCSFinder_simulate r reads)) = []"
  by (simp add: MCSFinder_simulate_def split_beta Let_def)

text \<open>
  Claim C1, evaluated on scenario A. The control run replays all five events, so it
  reproduces a violation that depends on events 2 and 4; \<open>MCSFinder.simulate\<close> then
  returns the empty list it started from, which is not that set.
\<close>

theorem MCSFinder_scenario_A_returns_empty:
  "Replayer_init scenario_A
     = Inr \<lparr> dag = scenario_A, interpolated_time = SyncTime 1 0 \<rparr>
   \<and> reproduces {scenario_event 2, scenario_event 4}
       (map event (event_watchers scenario_A None))
   \<and> snd (snd (MCSFinder_simulate
        \<lparr> dag = scenario_A, interpolated_time = SyncTime 1 0 \<rparr> reads)) = []
   \<and> set ([] :: Event list) \<noteq> {scenario_event 2, scenario_event 4}"
  by (simp add: MCSFinder_simulate_mcs Replayer_init_def events_def scenario_A_def
        compute_interpolated_time_def time_epsilon_microseconds_def Let_def
        reproduces_def event_watchers_def scenario_event_def comp_def)

section \<open>Interposition by the deferred connection\<close>

lemma conn_step_receiver:
  assumes "on_message_received conn = insert_pending_receipt_method"
    and "conn_step conn c = (as, Inr conn1)"
  shows "on_message_received conn1 = insert_pending_receipt_method"
  using assms
  by (cases c)
     (auto simp: message_arrives_def insert_pending_receipt_def send_def set_message_handler_def
        allow_message_receipt_def allow_message_send_def split: option.splits)

lemma conn_step_released:
  assumes "on_message_received conn = insert_pending_receipt_method"
    and "a \<in> set (fst (conn_step conn c))"
  shows "released_by c a"
  using assms
  by (cases c)
     (auto simp: message_arrives_def allow_message_receipt_def allow_message_send_def
        split: option.splits)

lemma conn_run_receiver:
  assumes "on_message_received conn = insert_pending_receipt_method"
    and "conn_run conn cs = (as, Inr conn1)"
  shows "on_message_received conn1 = insert_pending_receipt_method"
  using assms
proof (induction cs arbitrary: conn as)
  case Nil
  then show ?case by simp
next
  case (Cons c cs)
  from Cons.prems(2) obtain bs conn2 ds where
    step: "conn_step conn c = (bs, Inr conn2)" and rest: "conn_run conn2 cs = (ds, Inr conn1)"
    by (auto split: prod.splits sum.splits)
  from conn_step_receiver[OF Cons.prems(1) step] rest show ?case
    by (rule Cons.IH)
qed

lemma conn_run_released:
  assumes "on_message_received conn = insert_pending_receipt_method"
    and "a \<in> set (fst (conn_run conn cs))"
  shows "\<exists>c\<in>set cs. released_by c a"
  using assms
proof (induction cs arbitrary: conn)
  case Nil
  then show ?case by simp
next
  case (Cons c cs)
  obtain bs r where step: "conn_step conn c = (bs, r)" by (cases "conn_step conn c")
  show ?case
  proof (cases r)
    case (Inl e)
    with step Cons.prems(2) have "a \<in> set (fst (conn_step conn c))" by simp
    from conn_step_released[OF Cons.prems(1) this] show ?thesis by simp
  next
    case (Inr conn2)
    with step Cons.prems(2) have
      "a \<in> set (fst (conn_step conn c)) \<or> a \<in> set (fst (conn_run conn2 cs))"
      by (auto split: prod.splits)
    then show ?thesis
    proof
      assume "a \<in> set (fst (conn_step conn c))"
      from conn_step_released[OF Cons.prems(1) this] show ?thesis by simp
    next
      assume later: "a \<in> set (fst (conn_run conn2 cs))"
      have "on_message_received conn2 = insert_pending_receipt_method"
        using Cons.prems(1) step Inr by (auto intro: conn_step_receiver)
      from Cons.IH[OF this later] show ?thesis by simp
    qed
  qed
qed

text \<open>
  Claim C2. Take a connection as its constructor leaves it and any sequence of calls on
  it. Every call of the switch's handler and every message written to the controller in
  that run is released by an \<open>allow_message_receipt\<close> or \<open>allow_message_send\<close> call of
  the sequence for that very message. And in the state the run reaches, a message that
  arrives from the controller is only appended to the buffer's pending receipts, and a
  message the switch sends is only appended to its pending sends: neither produces a
  handler call or a write.
\<close>

theorem deferred_connection_only_buffers:
  assumes "conn_run (DeferredOFConnection_init c d b) cs = (as, Inr conn)"
  shows "(\<forall>a\<in>set as. \<exists>call\<in>set cs. released_by call a)
       \<and> conn_step conn (MessageArrives m) =
           ([], Inr (conn\<lparr> openflow_buffer :=
              (openflow_buffer conn)\<lparr> pending_receipts :=
                 pending_receipts (openflow_buffer conn) @ [(dpid conn, cid conn, m)] \<rparr> \<rparr>))
       \<and> conn_step conn (Send m) =
           ([], Inr (conn\<lparr> openflow_buffer :=
              (openflow_buffer conn)\<lparr> pending_sends :=
                 pending_sends (openflow_buffer conn) @ [(dpid conn, cid conn, m)] \<rparr> \<rparr>))"
proof -
  have init: "on_message_received (DeferredOFConnection_init c d b) = insert_pending_receipt_method"
    by (simp add: DeferredOFConnection_init_def)
  have recv: "on_message_received conn = insert_pending_receipt_method"
    using init assms by (rule conn_run_receiver)
  have rel: "\<exists>call\<in>set cs. released_by call a" if "a \<in> set as" for a
  proof -
    from that assms have "a \<in> set (fst (conn_run (DeferredOFConnection_init c d b) cs))" by simp
    with init show ?thesis by (rule conn_run_released)
  qed
  have arr: "conn_step conn (MessageArrives m) =
           ([], Inr (conn\<lparr> openflow_buffer :=
              (openflow_buffer conn)\<lparr> pending_receipts :=
                 pending_receipts (openflow_buffer conn) @ [(dpid conn, cid conn, m)] \<rparr> \<rparr>))"
    using recv
    by (simp add: message_arrives_def insert_pending_receipt_def buffer_insert_pending_receipt_def)
  have snd: "conn_step conn (Send m) =
           ([], Inr (conn\<lparr> openflow_buffer :=
              (openflow_buffer conn)\<lparr> pending_sends :=
                 pending_sends (openflow_buffer conn) @ [(dpid conn, cid conn, m)] \<rparr> \<rparr>))"
    by (simp add: send_def buffer_insert_pending_send_def)
  from rel arr snd show ?thesis by blast
qed

theorem deferred_connection_only_buffers_witness:
  "conn_run (DeferredOFConnection_init ''c1'' 7 \<lparr> pending_receipts = [], pending_sends = [] \<rparr>)
     [MessageArrives ''flow_mod'', SetMessageHandler 3, Send ''packet_in'',
      AllowMessageReceipt ''flow_mod'', AllowMessageSend ''packet_in'']
     = ([HandlerCalled 3 ''flow_mod'', SentToController ''packet_in''],
        Inr \<lparr> cid = ''c1'', dpid = 7,
              openflow_buffer = \<lparr> pending_receipts = [(7, ''c1'', ''flow_mod'')],
                                  pending_sends = [(7, ''c1'', ''packet_in'')] \<rparr>,
              on_message_received = insert_pending_receipt_method,
              true_on_message_handler = Some 3 \<rparr>)
   \<and> conn_step \<lparr> cid = ''c1'', dpid = 7,
              openflow_buffer = \<lparr> pending_receipts = [(7, ''c1'', ''flow_mod'')],
                                  pending_sends = [(7, ''c1'', ''packet_in'')] \<rparr>,
              on_message_received = insert_pending_receipt_method,
              true_on_message_handler = Some 3 \<rparr> (MessageArrives ''hello'')
     = ([], Inr \<lparr> cid = ''c1'', dpid = 7,
              openflow_buffer = \<lparr> pending_receipts = [(7, ''c1'', ''flow_mod''), (7, ''c1'', ''hello'')],
                                  pending_sends = [(7, ''c1'', ''packet_in'')] \<rparr>,
              on_message_received = insert_pending_receipt_method,
              true_on_message_handler = Some 3 \<rparr>)
   \<and> released_by (AllowMessageReceipt ''flow_mod'') (HandlerCalled 3 ''flow_mod'')
   \<and> released_by (AllowMessageSend ''packet_in'') (SentToController ''packet_in'')"
proof -
  let ?cs = "[MessageArrives ''flow_mod'', SetMessageHandler 3, Send ''packet_in'',
      AllowMessageReceipt ''flow_mod'', AllowMessageSend ''packet_in'']"
  let ?conn = "\<lparr> cid = ''c1'', dpid = 7,
              openflow_buffer = \<lparr> pending_receipts = [(7, ''c1'', ''flow_mod'')],
                                  pending_sends = [(7, ''c1'', ''packet_in'')] \<rparr>,
              on_message_received = insert_pending_receipt_method,
              true_on_message_handler = Some 3 \<rparr>"
  have run: "conn_run (DeferredOFConnection_init ''c1'' 7 \<lparr> pending_receipts = [], pending_sends = [] \<rparr>) ?cs
     = ([HandlerCalled 3 ''flow_mod'', SentToController ''packet_in''], Inr ?conn)"
    by (simp add: DeferredOFConnection_init_def message_arrives_def insert_pending_receipt_def
          buffer_insert_pending_receipt_def set_message_handler_def send_def
          buffer_insert_pending_send_def allow_message_receipt_def allow_message_send_def)
  from deferred_connection_only_buffers[OF run, of "''hello''"] run show ?thesis
    by simp
qed

section \<open>The dataplane check\<close>

lemma fuzzer_with_init:
  "Fuzzer_init (steady_environment sim) (Some p) 35 10 0 (1 / 10) (Some 1) lg
     = Inr (fuzzer_with p lg)"
  by (simp add: Fuzzer_init_def steady_environment_def fuzzer_with_def)

lemma check_dataplane_body_order:
  "check_dataplane_body sim dp fz =
     (let g = random fz; r1 = draws g (drawn g); r2 = draws g (Suc (drawn g)) in
      if r1 < dataplane_delay_rate (params fz)
      then ([DelayDpEvent dp], Inr (fz\<lparr> random := g\<lparr> drawn := drawn g + 1 \<rparr> \<rparr>))
      else if r2 < dataplane_drop_rate (params fz)
      then (DropDpEvent dp # log_input_event fz (DataplaneDrop (fingerprint dp)),
            Inr (fz\<lparr> random := g\<lparr> drawn := drawn g + 2 \<rparr> \<rparr>))
      else if ok_to_send sim dp
      then (PermitDpEvent dp # log_input_event fz (DataplanePermit (fingerprint dp)),
            Inr (fz\<lparr> random := g\<lparr> drawn := drawn g + 2 \<rparr> \<rparr>))
      else ([], Inr (fz\<lparr> random := g\<lparr> drawn := drawn g + 2 \<rparr> \<rparr>)))"
  by (simp add: check_dataplane_body_def self_random_random_def random_random_def
        perform_def returns_def log_input_event_def Let_def)

lemma drop_every_event:
  assumes "dataplane_delay_rate (params fz) = 0"
    and "dataplane_drop_rate (params fz) = 1"
    and "\<forall>n. 0 \<le> draws (random fz) n \<and> draws (random fz) n < 1"
  shows "for_each (check_dataplane_body sim) q fz =
         (concat (map (\<lambda>dp. DropDpEvent dp # log_input_event fz (DataplaneDrop (fingerprint dp))) q),
          Inr (fz\<lparr> random := (random fz)\<lparr> drawn := drawn (random fz) + 2 * length q \<rparr> \<rparr>))"
  using assms
proof (induction q arbitrary: fz)
  case Nil
  then show ?case by (simp add: returns_def)
next
  case (Cons dp q)
  let ?fz1 = "fz\<lparr> random := (random fz)\<lparr> drawn := drawn (random fz) + 2 \<rparr> \<rparr>"
  have no_delay: "\<not> draws (random fz) (drawn (random fz)) < 0"
    using Cons.prems(3) by (simp add: not_less)
  have drop: "draws (random fz) (Suc (drawn (random fz))) < 1"
    using Cons.prems(3) by simp
  have body: "check_dataplane_body sim dp fz =
      (DropDpEvent dp # log_input_event fz (DataplaneDrop (fingerprint dp)), Inr ?fz1)"
    using no_delay drop Cons.prems(1,2)
    by (simp add: check_dataplane_body_order Let_def)
  have rest: "for_each (check_dataplane_body sim) q ?fz1 =
      (concat (map (\<lambda>dp. DropDpEvent dp # log_input_event ?fz1 (DataplaneDrop (fingerprint dp))) q),
       Inr (?fz1\<lparr> random := (random ?fz1)\<lparr> drawn := drawn (random ?fz1) + 2 * length q \<rparr> \<rparr>))"
    using Cons.prems by (intro Cons.IH) simp_all
  show ?case
    using body rest by (simp add: and_then_def log_input_event_def)
qed

text \<open>
  Claim C7, as the code has it. For one queued dataplane event the first draw is compared
  with the delay rate, and only if that fails a second draw with the drop rate, and only
  if that fails too the topology is asked whether the event may be sent. With
  \<open>dataplane_delay_rate = 0\<close>, \<open>dataplane_drop_rate = 1\<close> and a generator whose draws lie
  in [0, 1), \<open>check_dataplane\<close> drops every queued event by \<open>drop_dp_event\<close>, in queue
  order, and after each drop logs a \<open>DataplaneDrop\<close> record with the event's fingerprint
  when the Fuzzer has an input logger; without a logger it logs nothing.
\<close>

theorem check_dataplane_drops_all:
  assumes "dataplane_delay_rate (params fz) = 0"
    and "dataplane_drop_rate (params fz) = 1"
    and "\<forall>n. 0 \<le> draws (random fz) n \<and> draws (random fz) n < 1"
  shows "check_dataplane fz sim =
           (concat (map (\<lambda>dp. DropDpEvent dp #
                       (if input_logger fz \<noteq> None
                        then [LogInputEvent (DataplaneDrop (fingerprint dp))] else []))
                    (queued_dataplane_events sim)),
            Inr (fz\<lparr> random := (random fz)\<lparr> drawn :=
                   drawn (random fz) + 2 * length (queued_dataplane_events sim) \<rparr> \<rparr>))
       \<and> check_dataplane_body sim dp fz =
           (let g = random fz; r1 = draws g (drawn g); r2 = draws g (Suc (drawn g)) in
            if r1 < dataplane_delay_rate (params fz)
            then ([DelayDpEvent dp], Inr (fz\<lparr> random := g\<lparr> drawn := drawn g + 1 \<rparr> \<rparr>))
            else if r2 < dataplane_drop_rate (params fz)
            then (DropDpEvent dp # log_input_event fz (DataplaneDrop (fingerprint dp)),
                  Inr (fz\<lparr> random := g\<lparr> drawn := drawn g + 2 \<rparr> \<rparr>))
            else if ok_to_send sim dp
            then (PermitDpEvent dp # log_input_event fz (DataplanePermit (fingerprint dp)),
                  Inr (fz\<lparr> random := g\<lparr> drawn := drawn g + 2 \<rparr> \<rparr>))
            else ([], Inr (fz\<lparr> random := g\<lparr> drawn := drawn g + 2 \<rparr> \<rparr>)))"
proof -
  have "check_dataplane fz sim =
           (concat (map (\<lambda>dp. DropDpEvent dp # log_input_event fz (DataplaneDrop (fingerprint dp)))
                    (queued_dataplane_events sim)),
            Inr (fz\<lparr> random := (random fz)\<lparr> drawn :=
                   drawn (random fz) + 2 * length (queued_dataplane_events sim) \<rparr> \<rparr>))"
    unfolding check_dataplane_def using assms by (rule drop_every_event)
  moreover have "log_input_event fz ev =
      (if input_logger fz \<noteq> None then [LogInputEvent ev] else [])" for ev
    by (simp add: log_input_event_def)
  ultimately have "check_dataplane fz sim =
           (concat (map (\<lambda>dp. DropDpEvent dp #
                       (if input_logger fz \<noteq> None
                        then [LogInputEvent (DataplaneDrop (fingerprint dp))] else []))
                    (queued_dataplane_events sim)),
            Inr (fz\<lparr> random := (random fz)\<lparr> drawn :=
                   drawn (random fz) + 2 * length (queued_dataplane_events sim) \<rparr> \<rparr>))"
    by simp
  then show ?thesis
    using check_dataplane_body_order[of sim dp fz] by blast
qed

theorem check_dataplane_drops_all_witness:
  "Fuzzer_init
     (steady_environment
        (empty_simulation\<lparr> queued_dataplane_events := [DpEvent ''p1'', DpEvent ''p2''] \<rparr>))
     (Some (zero_params\<lparr> dataplane_drop_rate := 1 \<rparr>)) 35 10 0 (1 / 10) (Some 1)
     (Some (InputLogger ''input.log''))
     = Inr (fuzzer_with (zero_params\<lparr> dataplane_drop_rate := 1 \<rparr>)
              (Some (InputLogger ''input.log'')))
   \<and> fst (check_dataplane
        (fuzzer_with (zero_params\<lparr> dataplane_drop_rate := 1 \<rparr>) (Some (InputLogger ''input.log'')))
        (empty_simulation\<lparr> queued_dataplane_events := [DpEvent ''p1'', DpEvent ''p2''] \<rparr>))
     = [DropDpEvent (DpEvent ''p1''), LogInputEvent (DataplaneDrop ''p1''),
        DropDpEvent (DpEvent ''p2''), LogInputEvent (DataplaneDrop ''p2'')]"
proof -
  let ?fz = "fuzzer_with (zero_params\<lparr> dataplane_drop_rate := 1 \<rparr>) (Some (InputLogger ''input.log''))"
  let ?sim = "empty_simulation\<lparr> queued_dataplane_events := [DpEvent ''p1'', DpEvent ''p2''] \<rparr>"
  have a: "dataplane_delay_rate (params ?fz) = 0"
    by (simp add: fuzzer_with_def zero_params_def)
  have b: "dataplane_drop_rate (params ?fz) = 1"
    by (simp add: fuzzer_with_def zero_params_def)
  have c: "\<forall>n. 0 \<le> draws (random ?fz) n \<and> draws (random ?fz) n < 1"
    by (simp add: fuzzer_with_def)
  have lg: "input_logger ?fz \<noteq> None"
    by (simp add: fuzzer_with_def)
  from check_dataplane_drops_all[OF a b c, of ?sim] lg fuzzer_with_init show ?thesis
    by (simp add: empty_simulation_def)
qed

text \<open>
  Claim C7 as stated fails for a Fuzzer built without an input logger, which is the
  constructor's default: the queued event is dropped and no record is logged.
\<close>

theorem check_dataplane_no_logger_counterexample:
  "Fuzzer_init
     (steady_environment (empty_simulation\<lparr> queued_dataplane_events := [DpEvent ''p1''] \<rparr>))
     (Some (zero_params\<lparr> dataplane_drop_rate := 1 \<rparr>)) 35 10 0 (1 / 10) (Some 1) None
     = Inr (fuzzer_with (zero_params\<lparr> dataplane_drop_rate := 1 \<rparr>) None)
   \<and> dataplane_delay_rate (params (fuzzer_with (zero_params\<lparr> dataplane_drop_rate := 1 \<rparr>) None)) = 0
   \<and> dataplane_drop_rate (params (fuzzer_with (zero_params\<lparr> dataplane_drop_rate := 1 \<rparr>) None)) = 1
   \<and> fst (check_dataplane (fuzzer_with (zero_params\<lparr> dataplane_drop_rate := 1 \<rparr>) None)
            (empty_simulation\<lparr> queued_dataplane_events := [DpEvent ''p1''] \<rparr>))
     = [DropDpEvent (DpEvent ''p1'')]
   \<and> logged (fst (check_dataplane (fuzzer_with (zero_params\<lparr> dataplane_drop_rate := 1 \<rparr>) None)
            (empty_simulation\<lparr> queued_dataplane_events := [DpEvent ''p1''] \<rparr>))) = []"
  by (simp add: fuzzer_with_init fuzzer_with_def zero_params_def empty_simulation_def
        check_dataplane_def check_dataplane_body_order log_input_event_def and_then_def
        returns_def Let_def)

section \<open>The control channel check\<close>

text \<open>
  Claim C8, evaluated. One unblocked connection and \<open>controlplane_block_rate = 1\<close>: the
  draw is below the rate, \<open>check_tcp_connections\<close> raises \<open>AttributeError\<close> having
  blocked nothing and logged nothing, and the round loop ends with that exception after
  closing the logger.
\<close>

theorem check_tcp_connections_raises:
  "Fuzzer_init
     (steady_environment
        (empty_simulation\<lparr> unblocked_controller_connections :=
           [(SoftwareSwitch 1,
             DeferredOFConnection_init ''c1'' 1 \<lparr> pending_receipts = [], pending_sends = [] \<rparr>)] \<rparr>))
     (Some (zero_params\<lparr> controlplane_block_rate := 1 \<rparr>)) 35 10 0 (1 / 10) (Some 1)
     (Some (InputLogger ''input.log''))
     = Inr (fuzzer_with (zero_params\<lparr> controlplane_block_rate := 1 \<rparr>)
              (Some (InputLogger ''input.log'')))
   \<and> check_tcp_connections
       (fuzzer_with (zero_params\<lparr> controlplane_block_rate := 1 \<rparr>) (Some (InputLogger ''input.log'')))
       (empty_simulation\<lparr> unblocked_controller_connections :=
           [(SoftwareSwitch 1,
             DeferredOFConnection_init ''c1'' 1 \<lparr> pending_receipts = [], pending_sends = [] \<rparr>)] \<rparr>)
     = ([], Inl AttributeError)
   \<and> Fuzzer_loop
       (steady_environment
          (empty_simulation\<lparr> unblocked_controller_connections :=
             [(SoftwareSwitch 1,
               DeferredOFConnection_init ''c1'' 1 \<lparr> pending_receipts = [], pending_sends = [] \<rparr>)] \<rparr>))
       (fuzzer_with (zero_params\<lparr> controlplane_block_rate := 1 \<rparr>) (Some (InputLogger ''input.log'')))
     = ([Close], Inl AttributeError)"
proof -
  let ?sim = "empty_simulation\<lparr> unblocked_controller_connections :=
           [(SoftwareSwitch 1,
             DeferredOFConnection_init ''c1'' 1 \<lparr> pending_receipts = [], pending_sends = [] \<rparr>)] \<rparr>"
  let ?fz = "fuzzer_with (zero_params\<lparr> controlplane_block_rate := 1 \<rparr>) (Some (InputLogger ''input.log''))"
  have tcp: "check_tcp_connections (?fz\<lparr> logical_time := t \<rparr>) ?sim = ([], Inl AttributeError)" for t
    by (simp add: fuzzer_with_def check_tcp_connections_def block_body_def
          self_random_random_def random_random_def raises_def and_then_def zero_params_def)
  have dp: "check_dataplane (?fz\<lparr> logical_time := t \<rparr>) ?sim = ([], Inr (?fz\<lparr> logical_time := t \<rparr>))" for t
    by (simp add: check_dataplane_def empty_simulation_def returns_def)
  have round: "Fuzzer_round (steady_environment ?sim) ?fz = ([], Inl AttributeError)"
    unfolding Fuzzer_round_def Let_def trigger_events_def
    by (simp add: steady_environment_def dp tcp and_then_def)
  have lt: "logical_time ?fz < 1"
    by (simp add: fuzzer_with_def)
  have "Fuzzer_loop_while (steady_environment ?sim) 1 ?fz = ([], Inl AttributeError)"
    by (subst Fuzzer_loop_while.simps) (simp add: round lt)
  then have loop: "Fuzzer_loop (steady_environment ?sim) ?fz = ([Close], Inl AttributeError)"
    by (simp add: Fuzzer_loop_def fuzzer_with_def)
  from tcp[of 0] have "check_tcp_connections ?fz ?sim = ([], Inl AttributeError)"
    by (simp add: fuzzer_with_def)
  with loop fuzzer_with_init show ?thesis by simp
qed

end
